theory Spec2Isabelle
  imports Complex_Main
begin

section \<open>Numbers, configuration and entities\<close>

text \<open>
  The game is a single JavaScript file whose session data are module-level variables.
  JavaScript numbers that the program only ever adds, subtracts and compares as whole
  numbers (clock readings in milliseconds, score, lives, health, the spawn interval, the
  player's coordinates, the canvas size) are modelled as \<open>int\<close>. The coordinates of
  enemies and bullets and the explosive damage computation are in double precision: they
  are modelled as \<open>real\<close> numbers, and every arithmetic operation on them is followed by
  the rounding \<open>fl\<close> defined below.
\<close>

text \<open>\<open>GAME_CONFIG\<close> (game.js, lines 36-47).\<close>

definition CANVAS_WIDTH :: int where "CANVAS_WIDTH = 800"
definition CANVAS_HEIGHT :: int where "CANVAS_HEIGHT = 600"
definition PLAYER_SPEED :: int where "PLAYER_SPEED = 5"
definition BULLET_SPEED :: real where "BULLET_SPEED = 7"
definition INITIAL_ENEMY_SPAWN_RATE :: int where "INITIAL_ENEMY_SPAWN_RATE = 2000"
definition MIN_ENEMY_SPAWN_RATE :: int where "MIN_ENEMY_SPAWN_RATE = 800"
definition SPAWN_RATE_DECREASE :: int where "SPAWN_RATE_DECREASE = 10"
definition SHOOT_COOLDOWN :: real where "SHOOT_COOLDOWN = 200"

subsection \<open>Double-precision arithmetic\<close>

text \<open>
  A JavaScript number is an IEEE 754 binary64 value, and \<open>+\<close>, \<open>-\<close>, \<open>*\<close>, \<open>/\<close> and
  \<open>Math.sqrt\<close> return the exact result rounded to the nearest such value, a tie going to
  the one whose significand is even. A real number \<open>x\<close> with \<open>2^e \<le> |x| < 2^(e+1)\<close>
  lies between two neighbouring whole multiples of \<open>2^(e-52)\<close>, which are the doubles of
  that binade; below \<open>2^(-1022)\<close> the doubles are the whole multiples of \<open>2^(-1074)\<close>.

  \<open>roundHalfEven y\<close> is the integer nearest to \<open>y\<close>, a tie going to the even one;
  \<open>binade x\<close> is the exponent \<open>e\<close>, \<open>ulp x\<close> the spacing \<open>2^(e-52)\<close> of the doubles
  around \<open>x\<close>, and \<open>fl x\<close> the double nearest to \<open>x\<close>. \<open>Math.pow(x, 2)\<close> is taken to
  return the correctly rounded square. \<open>Infinity\<close> and \<open>NaN\<close> are not modelled: above the
  largest double \<open>fl\<close> goes on rounding to 53 significant bits.
\<close>

definition roundHalfEven :: "real \<Rightarrow> int" where
  "roundHalfEven y =
     (let f = \<lfloor>y\<rfloor>; r = y - of_int f
      in if r < 1/2 then f else if r > 1/2 then f + 1 else if even f then f else f + 1)"

definition binade :: "real \<Rightarrow> int" where
  "binade x = max (- 1022) \<lfloor>log 2 \<bar>x\<bar>\<rfloor>"

definition ulp :: "real \<Rightarrow> real" where
  "ulp x = 2 powr (of_int (binade x) - 52)"

definition fl :: "real \<Rightarrow> real" where
  "fl x = (if x = 0 then 0 else of_int (roundHalfEven (x / ulp x)) * ulp x)"

text \<open>The canvas element; \<open>None\<close> stands for a missing element (\<open>canvas\<close> is falsy).\<close>

record canvas_el =
  canvas_width :: int
  canvas_height :: int

text \<open>Every entity carries an axis-aligned box.\<close>

record 'a rect =
  pos_x :: 'a
  pos_y :: 'a
  width :: 'a
  height :: 'a

record enemy = "real rect" +
  speed :: real
  maxHealth :: int
  currentHealth :: int
  healthBarVisible :: bool

record bullet = "real rect" +
  velX :: real
  velY :: real

text \<open>The \<open>player\<close> object (lines 50-79): its box, its speed and the power-up flags.\<close>

record player_obj = "int rect" +
  pspeed :: int
  rapidFireActive :: bool
  multiShotActive :: bool
  laserBeamActive :: bool
  shieldActive :: bool
  invincible :: bool
  timeSlowActive :: bool
  explosiveRoundsActive :: bool

subsection \<open>Enemy (lines 1720-1793)\<close>

text \<open>
  The constructor draws three random numbers, in this order: for \<open>x\<close>, for the speed
  and for the health. They are parameters of the model; \<open>Math.random()\<close> returns a
  double \<open>r\<close> with \<open>0 \<le> r < 1\<close>. \<open>Math.floor(Math.random() * 3)\<close> is the floor of the
  rounded product.
\<close>

definition Enemy_new :: "canvas_el option \<Rightarrow> real \<Rightarrow> real \<Rightarrow> real \<Rightarrow> enemy" where
  "Enemy_new cv r1 r2 r3 =
     (let canvasWidth = (case cv of Some c \<Rightarrow> canvas_width c | None \<Rightarrow> CANVAS_WIDTH);
          mh = \<lfloor>fl (r3 * 3)\<rfloor> + 2
      in \<lparr> pos_x = fl (r1 * real_of_int (canvasWidth - 30)), pos_y = - 30, width = 30,
           height = 30, speed = fl (fl (r2 * 2) + 1), maxHealth = mh, currentHealth = mh,
           healthBarVisible = False \<rparr>)"

definition isDestroyed :: "enemy \<Rightarrow> bool" where
  "isDestroyed e = (currentHealth e \<le> 0)"

text \<open>
  \<open>takeDamage(amount)\<close> mutates the enemy and returns \<open>isDestroyed()\<close>; the model
  returns the mutated enemy, and the returned flag is \<open>isDestroyed\<close> of it.
\<close>

definition takeDamage :: "int \<Rightarrow> enemy \<Rightarrow> enemy" where
  "takeDamage amount e =
     (let h = currentHealth e - amount
      in e\<lparr> currentHealth := (if h < 0 then 0 else h), healthBarVisible := True \<rparr>)"

text \<open>
  \<open>update()\<close> moves the enemy down by its speed times the time-slow multiplier \<open>m\<close>, where
  \<open>window.timeSlowMultiplier || 1.0\<close> replaces a zero multiplier by 1.
\<close>

definition Enemy_update :: "real \<Rightarrow> enemy \<Rightarrow> enemy" where
  "Enemy_update m e =
     (let effectiveSpeed = fl (speed e * (if m = 0 then 1.0 else m))
      in e\<lparr> pos_y := fl (pos_y e + effectiveSpeed) \<rparr>)"

definition updateHealthBarVisibility :: "enemy \<Rightarrow> enemy" where
  "updateHealthBarVisibility e =
     (if currentHealth e \<ge> maxHealth e then e\<lparr> healthBarVisible := False \<rparr> else e)"

text \<open>The overlap test used by every collision pass; each sum is a double.\<close>

definition overlaps :: "(real, 'b) rect_scheme \<Rightarrow> (real, 'c) rect_scheme \<Rightarrow> bool" where
  "overlaps a b =
     (pos_x a < fl (pos_x b + width b) \<and> fl (pos_x a + width a) > pos_x b \<and>
      pos_y a < fl (pos_y b + height b) \<and> fl (pos_y a + height a) > pos_y b)"

section \<open>Power-up catalog and pickups\<close>

text \<open>One entry of \<open>POWER_UP_TYPES\<close> (lines 1877-1920).\<close>

record typeConfig =
  cfg_name :: string
  description :: string
  duration :: int
  color :: string
  icon :: string

definition RAPID_FIRE :: typeConfig where
  "RAPID_FIRE = \<lparr> cfg_name = ''Rapid Fire'', description = ''Increases firing rate by 300%'',
     duration = 10000, color = ''#ff6b00'', icon = ''R'' \<rparr>"

definition MULTI_SHOT :: typeConfig where
  "MULTI_SHOT = \<lparr> cfg_name = ''Multi-Shot'', description = ''Fires 3 bullets in spread pattern'',
     duration = 15000, color = ''#00ff6b'', icon = ''M'' \<rparr>"

definition LASER_BEAM :: typeConfig where
  "LASER_BEAM = \<lparr> cfg_name = ''Laser Beam'', description = ''Continuous laser beam'',
     duration = 8000, color = ''#6b00ff'', icon = ''L'' \<rparr>"

definition SHIELD_GENERATOR :: typeConfig where
  "SHIELD_GENERATOR = \<lparr> cfg_name = ''Shield Generator'', description = ''Temporary invincibility'',
     duration = 5000, color = ''#00ffff'', icon = ''S'' \<rparr>"

definition TIME_SLOW :: typeConfig where
  "TIME_SLOW = \<lparr> cfg_name = ''Time Slow'', description = ''Reduces enemy speed by 50%'',
     duration = 12000, color = ''#ffff00'', icon = ''T'' \<rparr>"

definition EXPLOSIVE_ROUNDS :: typeConfig where
  "EXPLOSIVE_ROUNDS = \<lparr> cfg_name = ''Explosive Rounds'', description = ''Area-of-effect explosions'',
     duration = 20000, color = ''#ff0066'', icon = ''E'' \<rparr>"

text \<open>The own properties of the object literal, in declaration order.\<close>

definition POWER_UP_TYPES :: "(string \<times> typeConfig) list" where
  "POWER_UP_TYPES =
     [(''RAPID_FIRE'', RAPID_FIRE), (''MULTI_SHOT'', MULTI_SHOT), (''LASER_BEAM'', LASER_BEAM),
      (''SHIELD_GENERATOR'', SHIELD_GENERATOR), (''TIME_SLOW'', TIME_SLOW),
      (''EXPLOSIVE_ROUNDS'', EXPLOSIVE_ROUNDS)]"

text \<open>
  \<open>POWER_UP_TYPES\<close> is a plain object literal, so the bracket lookup
  \<open>POWER_UP_TYPES[type]\<close> that the constructor and the manager use walks the prototype
  chain: a name that is not an own property but is a property of \<open>Object.prototype\<close>
  yields that inherited member (a function, or the prototype object itself for
  \<open>__proto__\<close>), which is truthy; any other name yields \<open>undefined\<close>.
\<close>

definition Object_prototype_props :: "string list" where
  "Object_prototype_props =
     [''constructor'', ''hasOwnProperty'', ''isPrototypeOf'', ''propertyIsEnumerable'',
      ''toLocaleString'', ''toString'', ''valueOf'', ''__proto__'', ''__defineGetter__'',
      ''__defineSetter__'', ''__lookupGetter__'', ''__lookupSetter__'']"

datatype js_prop = Undefined | Config typeConfig | Inherited string

definition POWER_UP_TYPES_get :: "string \<Rightarrow> js_prop" where
  "POWER_UP_TYPES_get k =
     (case map_of POWER_UP_TYPES k of
        Some c \<Rightarrow> Config c
      | None \<Rightarrow> if k \<in> set Object_prototype_props then Inherited k else Undefined)"

fun truthy :: "js_prop \<Rightarrow> bool" where
  "truthy Undefined = False"
| "truthy (Config c) = True"
| "truthy (Inherited k) = True"

text \<open>The \<open>PowerUp\<close> pickup (lines 1923-1943).\<close>

record powerUp = "real rect" +
  fall_speed :: real
  ptype :: string
  ptypeConfig :: js_prop
  collected :: bool

definition PowerUp_new :: "real \<Rightarrow> real \<Rightarrow> string \<Rightarrow> powerUp" where
  "PowerUp_new px py t =
     (let c = POWER_UP_TYPES_get t
      in \<lparr> pos_x = px, pos_y = py, width = 20, height = 20, fall_speed = 2, ptype = t,
           ptypeConfig = (if \<not> truthy c then Config RAPID_FIRE else c),
           collected = False \<rparr>)"

text \<open>True of exactly the six catalog entries.\<close>

definition isCatalogEntry :: "js_prop \<Rightarrow> bool" where
  "isCatalogEntry p = (case p of Config c \<Rightarrow> c \<in> set (map snd POWER_UP_TYPES) | _ \<Rightarrow> False)"

section \<open>Session state\<close>

text \<open>
  A JavaScript \<open>Map\<close> keeps its keys in insertion order and holds each key once:
  \<open>set\<close> on a present key replaces the value in place, on a new key it appends.
\<close>

definition Map_has :: "('k \<times> 'v) list \<Rightarrow> 'k \<Rightarrow> bool" where
  "Map_has m k = (k \<in> set (map fst m))"

definition Map_get :: "('k \<times> 'v) list \<Rightarrow> 'k \<Rightarrow> 'v option" where
  "Map_get m k = map_of m k"

fun Map_set :: "'k \<Rightarrow> 'v \<Rightarrow> ('k \<times> 'v) list \<Rightarrow> ('k \<times> 'v) list" where
  "Map_set k v [] = [(k, v)]"
| "Map_set k v (p # m) = (if fst p = k then (k, v) # m else p # Map_set k v m)"

definition Map_delete :: "'k \<Rightarrow> ('k \<times> 'v) list \<Rightarrow> ('k \<times> 'v) list" where
  "Map_delete k m = filter (\<lambda>p. fst p \<noteq> k) m"

definition Map_keys :: "('k \<times> 'v) list \<Rightarrow> 'k list" where
  "Map_keys m = map fst m"

text \<open>
  An effect's end time is \<open>now + typeConfig.duration\<close>. For an inherited member the
  \<open>duration\<close> property is \<open>undefined\<close> and the sum is \<open>NaN\<close>.
\<close>

datatype js_number = Num int | NaN

fun ge_js :: "int \<Rightarrow> js_number \<Rightarrow> bool" where
  "ge_js n (Num e) = (n \<ge> e)"
| "ge_js n NaN = False"

record effect =
  etype :: string
  config :: js_prop
  startTime :: int
  endTime :: js_number
  active :: bool

text \<open>
  Instrumentation, never read by the program: the calls of \<open>applyPowerUpEffect\<close> (with
  their arguments) and of \<open>activePowerUps.clear()\<close>, in the order they happen.
\<close>

datatype trace_event = ApplyEffect string bool | TableCleared

text \<open>
  The state classes (lines 127-1527). An argument of \<open>addState\<close> is \<open>null\<close> or
  \<open>undefined\<close>, an instance of \<open>State\<close> or of a subclass (which has the five methods
  \<open>update\<close>, \<open>render\<close>, \<open>enter\<close>, \<open>exit\<close>, \<open>handleInput\<close> by inheritance), or another
  object, given with the names of the methods it has.
\<close>

datatype state_class =
  BaseState | IntroState | CharacterSelectState | GameState | PauseState | GameOverState

datatype js_value = JSNull | StateInstance state_class | OtherObject "string list"

record GameStateManager =
  currentState :: "state_class option"
  states :: "(string \<times> state_class) list"
  initialized :: bool

text \<open>
  The module-level variables. \<open>keys k\<close> is the truthiness of \<open>keys[k]\<close>. The
  \<open>PowerUpManager\<close> instance is flattened: \<open>powerUpManager\<close> tells whether the global is
  set, \<open>activePowerUps\<close> and \<open>pm_initialized\<close> are its two fields. \<open>laserBeam\<close> is
  \<open>None\<close> for \<open>null\<close> and \<open>Some a\<close> for a \<open>LaserBeam\<close> whose \<open>active\<close> field is \<open>a\<close>.
  Particles and falling pickups are written by the functions below but read by none of
  them; they are left out, and so are the DOM and the console.
\<close>

record game =
  canvas :: "canvas_el option"
  gameRunning :: bool
  score :: int
  lives :: int
  keys :: "string \<Rightarrow> bool"
  player :: player_obj
  bullets :: "bullet list"
  enemies :: "enemy list"
  laserActive :: bool
  laserBeam :: "bool option"
  timeSlowMultiplier :: real
  lastEnemySpawn :: int
  enemySpawnRate :: int
  lastShot :: int
  gameStateManager :: "GameStateManager option"
  powerUpManager :: bool
  activePowerUps :: "(string \<times> effect) list"
  pm_initialized :: bool
  hookTrace :: "trace_event list"

section \<open>Power-up effect manager (lines 2069-2446)\<close>

text \<open>The enable and disable hooks; \<open>player\<close> is a constant object, hence always truthy.\<close>

definition activateLaserBeam :: "game \<Rightarrow> game" where
  "activateLaserBeam g =
     g\<lparr> laserBeam := Some True, laserActive := True,
        player := (player g)\<lparr> laserBeamActive := True \<rparr> \<rparr>"

definition deactivateLaserBeam :: "game \<Rightarrow> game" where
  "deactivateLaserBeam g =
     g\<lparr> laserBeam := (case laserBeam g of None \<Rightarrow> None | Some a \<Rightarrow> Some False),
        laserActive := False,
        player := (player g)\<lparr> laserBeamActive := False \<rparr> \<rparr>"

definition activateShield :: "game \<Rightarrow> game" where
  "activateShield g = g\<lparr> player := (player g)\<lparr> shieldActive := True, invincible := True \<rparr> \<rparr>"

definition deactivateShield :: "game \<Rightarrow> game" where
  "deactivateShield g = g\<lparr> player := (player g)\<lparr> shieldActive := False, invincible := False \<rparr> \<rparr>"

definition activateTimeSlow :: "game \<Rightarrow> game" where
  "activateTimeSlow g =
     g\<lparr> timeSlowMultiplier := 0.5, player := (player g)\<lparr> timeSlowActive := True \<rparr> \<rparr>"

definition deactivateTimeSlow :: "game \<Rightarrow> game" where
  "deactivateTimeSlow g =
     g\<lparr> timeSlowMultiplier := 1.0, player := (player g)\<lparr> timeSlowActive := False \<rparr> \<rparr>"

definition applyPowerUpEffect :: "string \<Rightarrow> bool \<Rightarrow> game \<Rightarrow> game" where
  "applyPowerUpEffect t activate g0 =
     (let g = g0\<lparr> hookTrace := hookTrace g0 @ [ApplyEffect t activate] \<rparr>
      in if t = ''RAPID_FIRE'' then g\<lparr> player := (player g)\<lparr> rapidFireActive := activate \<rparr> \<rparr>
         else if t = ''MULTI_SHOT'' then g\<lparr> player := (player g)\<lparr> multiShotActive := activate \<rparr> \<rparr>
         else if t = ''LASER_BEAM'' then
           (if activate then activateLaserBeam g else deactivateLaserBeam g)
         else if t = ''SHIELD_GENERATOR'' then
           (if activate then activateShield g else deactivateShield g)
         else if t = ''TIME_SLOW'' then
           (if activate then activateTimeSlow g else deactivateTimeSlow g)
         else if t = ''EXPLOSIVE_ROUNDS'' then
           g\<lparr> player := (player g)\<lparr> explosiveRoundsActive := activate \<rparr> \<rparr>
         else g)"

definition PowerUpManager_initialize :: "game \<Rightarrow> game" where
  "PowerUpManager_initialize g =
     g\<lparr> activePowerUps := [], pm_initialized := True, hookTrace := hookTrace g @ [TableCleared] \<rparr>"

text \<open>\<open>now + typeConfig.duration\<close>.\<close>

definition endTime_of :: "js_prop \<Rightarrow> int \<Rightarrow> js_number" where
  "endTime_of c now = (case c of Config tc \<Rightarrow> Num (now + duration tc) | _ \<Rightarrow> NaN)"

text \<open>
  \<open>addPowerUp(type)\<close>; \<open>now\<close> is the reading of \<open>Date.now()\<close>. The result pairs the
  returned boolean with the new state. An empty string is falsy; an invalid type throws
  inside the \<open>try\<close> block and the method returns \<open>false\<close>.
\<close>

definition addPowerUp :: "string \<Rightarrow> int \<Rightarrow> game \<Rightarrow> bool \<times> game" where
  "addPowerUp t now g =
     (if t = [] \<or> \<not> truthy (POWER_UP_TYPES_get t) then (False, g)
      else let tc = POWER_UP_TYPES_get t
           in (case Map_get (activePowerUps g) t of
                 Some existingEffect \<Rightarrow>
                   (True, g\<lparr> activePowerUps :=
                        Map_set t (existingEffect\<lparr> endTime := endTime_of tc now \<rparr>) (activePowerUps g) \<rparr>)
               | None \<Rightarrow>
                   (let eff = \<lparr> etype = t, config = tc, startTime = now,
                                 endTime = endTime_of tc now, active = True \<rparr>
                    in (True, applyPowerUpEffect t True
                                (g\<lparr> activePowerUps := Map_set t eff (activePowerUps g) \<rparr>)))))"

definition removePowerUp :: "string \<Rightarrow> game \<Rightarrow> bool \<times> game" where
  "removePowerUp t g =
     (if \<not> Map_has (activePowerUps g) t then (False, g)
      else let g1 = applyPowerUpEffect t False g
           in (True, g1\<lparr> activePowerUps := Map_delete t (activePowerUps g1) \<rparr>))"

definition PowerUpManager_updatePowerUps :: "int \<Rightarrow> game \<Rightarrow> game" where
  "PowerUpManager_updatePowerUps now g =
     (let expiredTypes = map fst (filter (\<lambda>(t, e). ge_js now (endTime e)) (activePowerUps g))
      in foldl (\<lambda>h t. snd (removePowerUp t h)) g expiredTypes)"

definition isPowerUpActive :: "string \<Rightarrow> game \<Rightarrow> bool" where
  "isPowerUpActive t g = Map_has (activePowerUps g) t"

definition clearAllPowerUps :: "game \<Rightarrow> game" where
  "clearAllPowerUps g =
     (let g1 = foldl (\<lambda>h t. applyPowerUpEffect t False h) g (Map_keys (activePowerUps g));
          g2 = g1\<lparr> laserBeam := (case laserBeam g1 of None \<Rightarrow> None | Some a \<Rightarrow> Some False) \<rparr>;
          g3 = g2\<lparr> laserActive := False \<rparr>;
          g4 = g3\<lparr> timeSlowMultiplier := 1.0 \<rparr>
      in g4\<lparr> activePowerUps := [], hookTrace := hookTrace g4 @ [TableCleared] \<rparr>)"

section \<open>Game state machine (lines 154-274)\<close>

text \<open>
  \<open>addState(name, state)\<close>: a falsy name (the empty string) or state, or a state that is
  not an instance of \<open>State\<close>, throws inside the \<open>try\<close> block and the method returns
  \<open>false\<close>; otherwise \<open>this.states.set(name, state)\<close> and \<open>true\<close>.
\<close>

text \<open>The constructor (lines 155-159).\<close>

definition GameStateManager_new :: GameStateManager where
  "GameStateManager_new = \<lparr> currentState = None, states = [], initialized = False \<rparr>"

definition addState :: "string \<Rightarrow> js_value \<Rightarrow> GameStateManager \<Rightarrow> bool \<times> GameStateManager" where
  "addState name st m =
     (if name = [] \<or> st = JSNull then (False, m)
      else case st of
             StateInstance c \<Rightarrow> (True, m\<lparr> states := Map_set name c (states m) \<rparr>)
           | _ \<Rightarrow> (False, m))"

definition isReady :: "GameStateManager \<Rightarrow> bool" where
  "isReady m = (initialized m \<and> length (states m) > 0)"

text \<open>\<open>player.reset()\<close> (lines 65-78).\<close>

definition player_reset :: "game \<Rightarrow> game" where
  "player_reset g =
     g\<lparr> player := (player g)\<lparr> pos_x := CANVAS_WIDTH div 2 - 15, pos_y := CANVAS_HEIGHT - 50,
            rapidFireActive := False, multiShotActive := False, laserBeamActive := False,
            shieldActive := False, invincible := False, timeSlowActive := False,
            explosiveRoundsActive := False \<rparr>,
        timeSlowMultiplier := 1.0 \<rparr>"

text \<open>The \<open>player\<close> object as the script creates it (lines 50-64).\<close>

definition initial_player :: player_obj where
  "initial_player =
     \<lparr> pos_x = CANVAS_WIDTH div 2 - 15, pos_y = CANVAS_HEIGHT - 50, width = 30, height = 30,
       pspeed = PLAYER_SPEED, rapidFireActive = False, multiShotActive = False,
       laserBeamActive = False, shieldActive = False, invincible = False,
       timeSlowActive = False, explosiveRoundsActive = False \<rparr>"

definition updateScore :: "int \<Rightarrow> game \<Rightarrow> game" where
  "updateScore points g = g\<lparr> score := score g + points \<rparr>"

definition updateLives :: "int \<Rightarrow> game \<Rightarrow> game" where
  "updateLives change g = g\<lparr> lives := lives g + change \<rparr>"

text \<open>
  The \<open>enter()\<close> and \<open>exit()\<close> methods of the state classes. Those of the intro,
  character-select and pause states touch only the DOM, session storage and fields of
  the state object itself.
\<close>

definition GameState_enter :: "game \<Rightarrow> game" where
  "GameState_enter g =
     (let g1 = g\<lparr> gameRunning := True, score := 0, lives := 3, bullets := [], enemies := [],
                   lastEnemySpawn := 0, enemySpawnRate := INITIAL_ENEMY_SPAWN_RATE \<rparr>;
          g2 = player_reset g1;
          g3 = (if powerUpManager g2 \<and> pm_initialized g2 then clearAllPowerUps g2 else g2)
      in updateLives 0 (updateScore 0 g3))"

fun state_enter :: "state_class \<Rightarrow> game \<Rightarrow> game" where
  "state_enter GameState g = GameState_enter g"
| "state_enter GameOverState g = g\<lparr> gameRunning := False \<rparr>"
| "state_enter _ g = g"

fun state_exit :: "state_class \<Rightarrow> game \<Rightarrow> game" where
  "state_exit GameState g = g\<lparr> gameRunning := False \<rparr>"
| "state_exit _ g = g"

text \<open>
  \<open>setState(stateName)\<close>, a method of the manager \<open>m\<close> held in \<open>gameStateManager\<close>;
  every caller checks that the global is set. With no manager the model changes nothing.
\<close>

definition setState :: "string \<Rightarrow> game \<Rightarrow> bool \<times> game" where
  "setState stateName g =
     (case gameStateManager g of
        None \<Rightarrow> (False, g)
      | Some m \<Rightarrow>
          (if stateName = [] then (False, g)
           else (case Map_get (states m) stateName of
                   None \<Rightarrow> (False, g)
                 | Some newState \<Rightarrow>
                     (let g1 = (case currentState m of Some cur \<Rightarrow> state_exit cur g | None \<Rightarrow> g);
                          g2 = g1\<lparr> gameStateManager := Some (m\<lparr> currentState := Some newState \<rparr>) \<rparr>
                      in (True, state_enter newState g2)))))"

text \<open>\<open>gameOver()\<close> (lines 4266-4283).\<close>

definition gameOver :: "game \<Rightarrow> game" where
  "gameOver g =
     (case gameStateManager g of
        Some m \<Rightarrow> if isReady m then snd (setState ''GameOverState'' g)
                  else g\<lparr> gameRunning := False \<rparr>
      | None \<Rightarrow> g\<lparr> gameRunning := False \<rparr>)"

section \<open>Input and firing (lines 1342-1375, 3429-3555)\<close>

definition Bullet_new :: "real \<Rightarrow> real \<Rightarrow> real \<Rightarrow> real \<Rightarrow> bullet" where
  "Bullet_new bx by vx vy =
     \<lparr> pos_x = bx, pos_y = by, width = 4, height = 10, velX = vx, velY = vy \<rparr>"

datatype bulletPattern = Laser | Spread | Single

definition getCurrentBulletPattern :: "game \<Rightarrow> bulletPattern" where
  "getCurrentBulletPattern g =
     (if powerUpManager g \<and> pm_initialized g \<and> isPowerUpActive ''LASER_BEAM'' g then Laser
      else if powerUpManager g \<and> pm_initialized g \<and> isPowerUpActive ''MULTI_SHOT'' g then Spread
      else Single)"

definition getCurrentShootCooldown :: "game \<Rightarrow> real" where
  "getCurrentShootCooldown g =
     (if powerUpManager g \<and> pm_initialized g \<and> isPowerUpActive ''RAPID_FIRE'' g
      then fl (SHOOT_COOLDOWN / 4) else SHOOT_COOLDOWN)"

text \<open>
  \<open>createBullets(pattern)\<close>. ECMAScript leaves the precision of \<open>Math.sin\<close> and
  \<open>Math.cos\<close> to the implementation; the model takes the correctly rounded values. No
  function below reads the velocity of a bullet.
\<close>

definition createBullets :: "bulletPattern \<Rightarrow> game \<Rightarrow> game" where
  "createBullets pat g =
     (let centerX = fl (real_of_int (pos_x (player g)) + fl (real_of_int (width (player g)) / 2));
          bulletY = real_of_int (pos_y (player g))
      in case pat of
           Laser \<Rightarrow> g
         | Spread \<Rightarrow>
             (let spreadAngle = fl 0.3
              in g\<lparr> bullets := bullets g @
                   [Bullet_new (fl (centerX - 2)) bulletY 0 (- BULLET_SPEED),
                    Bullet_new (fl (centerX - 2)) bulletY
                      (fl (fl (sin (- spreadAngle)) * BULLET_SPEED))
                      (fl (- fl (cos (- spreadAngle)) * BULLET_SPEED)),
                    Bullet_new (fl (centerX - 2)) bulletY
                      (fl (fl (sin spreadAngle) * BULLET_SPEED))
                      (fl (- fl (cos spreadAngle) * BULLET_SPEED))] \<rparr>)
         | Single \<Rightarrow>
             g\<lparr> bullets := bullets g @ [Bullet_new (fl (centerX - 2)) bulletY 0 (- BULLET_SPEED)] \<rparr>)"

definition shootBullet :: "int \<Rightarrow> game \<Rightarrow> game" where
  "shootBullet now g =
     (if real_of_int (now - lastShot g) > getCurrentShootCooldown g
      then (createBullets (getCurrentBulletPattern g) g)\<lparr> lastShot := now \<rparr>
      else g)"

text \<open>
  The four movement statements shared by \<open>GameState.handleInput\<close> and the free function
  \<open>handleInput\<close>: each moves by \<open>player.speed\<close> when its key is held and its guard
  holds; \<open>x1\<close>, \<open>x2\<close> are \<open>player.x\<close> after the first and the second statement,
  \<open>y1\<close>, \<open>y2\<close> are \<open>player.y\<close> after the third and the fourth. \<open>canvas.width || GAME_CONFIG.CANVAS_WIDTH\<close> replaces a zero width.
\<close>

definition movePlayer :: "canvas_el \<Rightarrow> game \<Rightarrow> game" where
  "movePlayer c g =
     (let canvasWidth = (if canvas_width c = 0 then CANVAS_WIDTH else canvas_width c);
          canvasHeight = (if canvas_height c = 0 then CANVAS_HEIGHT else canvas_height c);
          p = player g;
          x1 = (if keys g ''ArrowLeft'' \<and> pos_x p > 0 then pos_x p - pspeed p else pos_x p);
          x2 = (if keys g ''ArrowRight'' \<and> x1 < canvasWidth - width p then x1 + pspeed p else x1);
          y1 = (if keys g ''ArrowUp'' \<and> pos_y p > 0 then pos_y p - pspeed p else pos_y p);
          y2 = (if keys g ''ArrowDown'' \<and> y1 < canvasHeight - height p then y1 + pspeed p else y1)
      in g\<lparr> player := p\<lparr> pos_x := x2, pos_y := y2 \<rparr> \<rparr>)"


definition GameState_handleInput :: "int \<Rightarrow> game \<Rightarrow> game" where
  "GameState_handleInput now g =
     (case canvas g of
        None \<Rightarrow> g
      | Some c \<Rightarrow>
          (let g1 = movePlayer c g;
               g2 = (if keys g1 ''Space''
                     then (shootBullet now g1)\<lparr> keys := (keys g1)(''Space'' := False) \<rparr> else g1)
           in if keys g2 ''Escape''
              then (let g3 = g2\<lparr> keys := (keys g2)(''Escape'' := False) \<rparr>
                    in (case gameStateManager g3 of
                          Some m \<Rightarrow> snd (setState ''PauseState'' g3)
                        | None \<Rightarrow> g3))
              else g2))"

section \<open>Enemy spawner (lines 3558-3573)\<close>

text \<open>
  \<open>now\<close> is the reading of \<open>Date.now()\<close>, \<open>(r1, r2, r3)\<close> the random numbers the
  \<open>Enemy\<close> constructor draws if it runs.
\<close>

definition spawnEnemy :: "int \<Rightarrow> real \<times> real \<times> real \<Rightarrow> game \<Rightarrow> game" where
  "spawnEnemy now rnd g =
     (if now - lastEnemySpawn g > enemySpawnRate g
      then (let g1 = g\<lparr> enemies := enemies g @
                          [case rnd of (r1, r2, r3) \<Rightarrow> Enemy_new (canvas g) r1 r2 r3],
                        lastEnemySpawn := now \<rparr>
            in if enemySpawnRate g1 > MIN_ENEMY_SPAWN_RATE
               then g1\<lparr> enemySpawnRate := enemySpawnRate g1 - SPAWN_RATE_DECREASE \<rparr>
               else g1)
      else g)"

text \<open>A run of the spawner: one invocation per frame, each with its clock reading.\<close>

fun spawnRun :: "(int \<times> real \<times> real \<times> real) list \<Rightarrow> game \<Rightarrow> game" where
  "spawnRun [] g = g"
| "spawnRun ((now, rnd) # rest) g = spawnRun rest (spawnEnemy now rnd g)"

section \<open>Collision and damage engine\<close>

text \<open>\<open>xs.splice(i, 1)\<close>: remove the element at index \<open>i\<close>.\<close>

definition splice1 :: "nat \<Rightarrow> 'a list \<Rightarrow> 'a list" where
  "splice1 i xs = take i xs @ drop (Suc i) xs"

subsection \<open>Explosive damage (lines 3348-3424)\<close>

text \<open>
  The damage at a given distance from the impact point: \<open>maxDamage = 3\<close>,
  \<open>minDamage = 1\<close>, \<open>Math.ceil\<close> of the linear interpolation, each operation of which
  is rounded.
\<close>

definition explosiveDamage :: "real \<Rightarrow> real \<Rightarrow> int" where
  "explosiveDamage distance radius =
     (let maxDamage = 3 :: real; minDamage = 1 :: real;
          damageRatio = fl (1 - fl (distance / radius))
      in \<lceil>fl (minDamage + fl (fl (maxDamage - minDamage) * damageRatio))\<rceil>)"

text \<open>
  The distance the code computes between the impact point and the centre of an enemy:
  the centre, the two differences, their squares, the sum and the square root are each
  rounded.
\<close>

definition enemyDistance :: "real \<Rightarrow> real \<Rightarrow> enemy \<Rightarrow> real" where
  "enemyDistance centerX centerY e =
     (let enemyCenterX = fl (pos_x e + fl (width e / 2));
          enemyCenterY = fl (pos_y e + fl (height e / 2))
      in fl (sqrt (fl (fl ((fl (centerX - enemyCenterX))\<^sup>2) +
                       fl ((fl (centerY - enemyCenterY))\<^sup>2)))))"

text \<open>The loop body for index \<open>i\<close>; \<open>if (!enemy) continue\<close> skips an index past the end.\<close>

definition explosiveStep :: "real \<Rightarrow> real \<Rightarrow> real \<Rightarrow> nat \<Rightarrow> game \<Rightarrow> game" where
  "explosiveStep centerX centerY radius i g =
     (if i < length (enemies g)
      then (let e = enemies g ! i;
                distance = enemyDistance centerX centerY e
            in if distance \<le> radius
               then (let e' = takeDamage (explosiveDamage distance radius) e
                     in if isDestroyed e'
                        then updateScore 10 (g\<lparr> enemies := splice1 i (enemies g) \<rparr>)
                        else g\<lparr> enemies := (enemies g)[i := e'\<lparr> healthBarVisible := True \<rparr>] \<rparr>)
               else g)
      else g)"

text \<open>\<open>for (let i = enemies.length - 1; i >= 0; i--)\<close>: the argument counts the indices left.\<close>

fun explosiveLoop :: "real \<Rightarrow> real \<Rightarrow> real \<Rightarrow> nat \<Rightarrow> game \<Rightarrow> game" where
  "explosiveLoop centerX centerY radius 0 g = g"
| "explosiveLoop centerX centerY radius (Suc i) g =
     explosiveLoop centerX centerY radius i (explosiveStep centerX centerY radius i g)"

definition applyExplosiveDamage :: "real \<Rightarrow> real \<Rightarrow> real \<Rightarrow> game \<Rightarrow> game" where
  "applyExplosiveDamage centerX centerY radius g =
     explosiveLoop centerX centerY radius (length (enemies g)) g"

subsection \<open>\<open>checkCollisions\<close> (lines 3578-3659)\<close>

text \<open>The body of the bullet-enemy \<open>if\<close>, for bullet \<open>i\<close> and enemy \<open>j\<close>.\<close>

definition bulletHit :: "nat \<Rightarrow> nat \<Rightarrow> game \<Rightarrow> game" where
  "bulletHit i j g =
     (let impactX = fl (pos_x (bullets g ! i) + fl (width (bullets g ! i) / 2));
          impactY = fl (pos_y (bullets g ! i) + fl (height (bullets g ! i) / 2));
          g1 = g\<lparr> bullets := splice1 i (bullets g) \<rparr>
      in if explosiveRoundsActive (player g1)
         then applyExplosiveDamage impactX impactY 50 g1
         else (let e' = takeDamage 1 (enemies g1 ! j)
               in if isDestroyed e'
                  then updateScore 10 (g1\<lparr> enemies := splice1 j (enemies g1) \<rparr>)
                  else g1\<lparr> enemies := (enemies g1)[j := e'\<lparr> healthBarVisible := True \<rparr>] \<rparr>))"

text \<open>
  The inner loop \<open>for (let j = enemies.length - 1; j >= 0; j--)\<close> for bullet \<open>i\<close>, with
  its \<open>break\<close> after a hit; the second argument counts the enemy indices left.
\<close>

fun enemyScan :: "nat \<Rightarrow> nat \<Rightarrow> game \<Rightarrow> game" where
  "enemyScan i 0 g = g"
| "enemyScan i (Suc j) g =
     (if i < length (bullets g) \<and> j < length (enemies g) \<and>
         overlaps (bullets g ! i) (enemies g ! j)
      then bulletHit i j g
      else enemyScan i j g)"

text \<open>The outer loop \<open>for (let i = bullets.length - 1; i >= 0; i--)\<close>.\<close>

fun bulletLoop :: "nat \<Rightarrow> game \<Rightarrow> game" where
  "bulletLoop 0 g = g"
| "bulletLoop (Suc i) g = bulletLoop i (enemyScan i (length (enemies g)) g)"

definition playerBox :: "player_obj \<Rightarrow> real rect" where
  "playerBox p = \<lparr> pos_x = real_of_int (pos_x p), pos_y = real_of_int (pos_y p),
                   width = real_of_int (width p), height = real_of_int (height p) \<rparr>"

text \<open>The body of the player-enemy loop for index \<open>i\<close>.\<close>

definition playerHit :: "nat \<Rightarrow> game \<Rightarrow> game" where
  "playerHit i g =
     (if i < length (enemies g) \<and> overlaps (enemies g ! i) (playerBox (player g))
      then (if invincible (player g) \<and> shieldActive (player g)
            then g\<lparr> enemies := splice1 i (enemies g) \<rparr>
            else (let g1 = updateLives (- 1) (g\<lparr> enemies := splice1 i (enemies g) \<rparr>)
                  in if lives g1 \<le> 0 then gameOver g1 else g1))
      else g)"

fun playerLoop :: "nat \<Rightarrow> game \<Rightarrow> game" where
  "playerLoop 0 g = g"
| "playerLoop (Suc i) g = playerLoop i (playerHit i g)"

definition bulletEnemyPass :: "game \<Rightarrow> game" where
  "bulletEnemyPass g = bulletLoop (length (bullets g)) g"

definition playerEnemyPass :: "game \<Rightarrow> game" where
  "playerEnemyPass g = playerLoop (length (enemies g)) g"

definition checkCollisions :: "game \<Rightarrow> game" where
  "checkCollisions g = playerEnemyPass (bulletEnemyPass g)"

subsection \<open>\<open>updateEnemies\<close> (lines 3743-3760)\<close>

text \<open>
  The loop body for index \<open>i\<close>: the enemy moves, its health bar is checked, and it is
  spliced out when it has passed the bottom edge of the canvas.
\<close>

definition enemyUpdateStep :: "int \<Rightarrow> nat \<Rightarrow> game \<Rightarrow> game" where
  "enemyUpdateStep canvasHeight i g =
     (if i < length (enemies g)
      then (let e' = updateHealthBarVisibility (Enemy_update (timeSlowMultiplier g) (enemies g ! i))
            in if pos_y e' > real_of_int canvasHeight
               then g\<lparr> enemies := splice1 i (enemies g) \<rparr>
               else g\<lparr> enemies := (enemies g)[i := e'] \<rparr>)
      else g)"

fun enemyUpdateLoop :: "int \<Rightarrow> nat \<Rightarrow> game \<Rightarrow> game" where
  "enemyUpdateLoop canvasHeight 0 g = g"
| "enemyUpdateLoop canvasHeight (Suc i) g =
     enemyUpdateLoop canvasHeight i (enemyUpdateStep canvasHeight i g)"

definition updateEnemies :: "game \<Rightarrow> game" where
  "updateEnemies g =
     (let canvasHeight = (case canvas g of Some c \<Rightarrow> canvas_height c | None \<Rightarrow> CANVAS_HEIGHT)
      in enemyUpdateLoop canvasHeight (length (enemies g)) g)"

section \<open>Start-up (lines 29-96, 4350-4479)\<close>

text \<open>The module-level variables as the script initialises them.\<close>

definition initial_game :: game where
  "initial_game =
     \<lparr> canvas = None, gameRunning = True, score = 0, lives = 3, keys = (\<lambda>k. False),
       player = initial_player, bullets = [], enemies = [], laserActive = False,
       laserBeam = None, timeSlowMultiplier = 1.0, lastEnemySpawn = 0,
       enemySpawnRate = INITIAL_ENEMY_SPAWN_RATE, lastShot = 0, gameStateManager = None,
       powerUpManager = False, activePowerUps = [], pm_initialized = False, hookTrace = [] \<rparr>"

definition initializeStateManager :: "game \<Rightarrow> game" where
  "initializeStateManager g =
     (let m0 = GameStateManager_new;
          m1 = snd (addState ''IntroState'' (StateInstance IntroState) m0);
          m2 = snd (addState ''CharacterSelectState'' (StateInstance CharacterSelectState) m1);
          m3 = snd (addState ''GameState'' (StateInstance GameState) m2);
          m4 = snd (addState ''PauseState'' (StateInstance PauseState) m3);
          m5 = snd (addState ''GameOverState'' (StateInstance GameOverState) m4);
          m6 = m5\<lparr> initialized := True \<rparr>
      in snd (setState ''IntroState'' (g\<lparr> gameStateManager := Some m6 \<rparr>)))"

definition initializePowerUpManager :: "game \<Rightarrow> game" where
  "initializePowerUpManager g = PowerUpManager_initialize (g\<lparr> powerUpManager := True \<rparr>)"

text \<open>\<open>initializeGame\<close> on a page whose canvas element is \<open>c\<close>.\<close>

definition initializeGame :: "canvas_el \<Rightarrow> game" where
  "initializeGame c =
     initializePowerUpManager (initializeStateManager (initial_game\<lparr> canvas := Some c \<rparr>))"

section \<open>Predicates used in the statements\<close>

text \<open>
  What the spawner maintains: the interval stays between the floor and the initial value,
  at a whole number of decrements above the floor.
\<close>

definition rateInv :: "game \<Rightarrow> bool" where
  "rateInv g =
     (MIN_ENEMY_SPAWN_RATE \<le> enemySpawnRate g \<and> enemySpawnRate g \<le> INITIAL_ENEMY_SPAWN_RATE \<and>
      SPAWN_RATE_DECREASE dvd (enemySpawnRate g - MIN_ENEMY_SPAWN_RATE))"

text \<open>The canvas of the configured size.\<close>

definition standardCanvas :: canvas_el where
  "standardCanvas = \<lparr> canvas_width = CANVAS_WIDTH, canvas_height = CANVAS_HEIGHT \<rparr>"

text \<open>The registry holds the five states under the names \<open>initializeStateManager\<close> gives them.\<close>

definition statesAsRegistered :: "game \<Rightarrow> bool" where
  "statesAsRegistered g =
     (case gameStateManager g of
        None \<Rightarrow> True
      | Some m \<Rightarrow> states m =
          [(''IntroState'', IntroState), (''CharacterSelectState'', CharacterSelectState),
           (''GameState'', GameState), (''PauseState'', PauseState),
           (''GameOverState'', GameOverState)])"

text \<open>
  The player lies inside the canvas, and its coordinates and the two upper bounds are
  whole multiples of its speed.
\<close>

definition inBoundsOnGrid :: "canvas_el \<Rightarrow> player_obj \<Rightarrow> bool" where
  "inBoundsOnGrid c p =
     (let canvasWidth = (if canvas_width c = 0 then CANVAS_WIDTH else canvas_width c);
          canvasHeight = (if canvas_height c = 0 then CANVAS_HEIGHT else canvas_height c)
      in 0 < pspeed p \<and>
         0 \<le> pos_x p \<and> pos_x p \<le> canvasWidth - width p \<and>
         0 \<le> pos_y p \<and> pos_y p \<le> canvasHeight - height p \<and>
         pspeed p dvd pos_x p \<and> pspeed p dvd pos_y p \<and>
         pspeed p dvd canvasWidth - width p \<and> pspeed p dvd canvasHeight - height p)"


text \<open>Each power-up flag of the player that is set has its type in the effect table.\<close>

definition flagsFollowTable :: "game \<Rightarrow> bool" where
  "flagsFollowTable g =
     ((rapidFireActive (player g) \<longrightarrow> Map_has (activePowerUps g) ''RAPID_FIRE'') \<and>
      (multiShotActive (player g) \<longrightarrow> Map_has (activePowerUps g) ''MULTI_SHOT'') \<and>
      (laserBeamActive (player g) \<longrightarrow> Map_has (activePowerUps g) ''LASER_BEAM'') \<and>
      (shieldActive (player g) \<longrightarrow> Map_has (activePowerUps g) ''SHIELD_GENERATOR'') \<and>
      (invincible (player g) \<longrightarrow> Map_has (activePowerUps g) ''SHIELD_GENERATOR'') \<and>
      (timeSlowActive (player g) \<longrightarrow> Map_has (activePowerUps g) ''TIME_SLOW'') \<and>
      (explosiveRoundsActive (player g) \<longrightarrow> Map_has (activePowerUps g) ''EXPLOSIVE_ROUNDS''))"

text \<open>The seven power-up flags of the player are all \<open>false\<close>.\<close>

definition allFlagsOff :: "player_obj \<Rightarrow> bool" where
  "allFlagsOff p =
     (\<not> rapidFireActive p \<and> \<not> multiShotActive p \<and> \<not> laserBeamActive p \<and> \<not> shieldActive p \<and>
      \<not> invincible p \<and> \<not> timeSlowActive p \<and> \<not> explosiveRoundsActive p)"

text \<open>
  What can happen to the session after start-up, one constructor per entry point:
  collecting a pickup of a type at a clock reading, removing an effect, the per-frame
  expiry check, clearing all effects, resetting the player, a state transition, the Game
  state's input handling with a given set of held keys, the spawner, the collision pass.
\<close>

datatype session_op =
    Pickup string int
  | Remove string
  | Expire int
  | ClearAll
  | PlayerReset
  | SetState string
  | Input int "string \<Rightarrow> bool"
  | Spawn int "real \<times> real \<times> real"
  | Collide

fun applyOp :: "session_op \<Rightarrow> game \<Rightarrow> game" where
  "applyOp (Pickup t now) g = snd (addPowerUp t now g)"
| "applyOp (Remove t) g = snd (removePowerUp t g)"
| "applyOp (Expire now) g = PowerUpManager_updatePowerUps now g"
| "applyOp ClearAll g = clearAllPowerUps g"
| "applyOp PlayerReset g = player_reset g"
| "applyOp (SetState n) g = snd (setState n g)"
| "applyOp (Input now held) g = GameState_handleInput now (g\<lparr> keys := held \<rparr>)"
| "applyOp (Spawn now rnd) g = spawnEnemy now rnd g"
| "applyOp Collide g = checkCollisions g"

fun runOps :: "session_op list \<Rightarrow> game \<Rightarrow> game" where
  "runOps [] g = g"
| "runOps (x # xs) g = runOps xs (applyOp x g)"

text \<open>A started game in which one Rapid Fire pickup was collected at clock reading 1000.\<close>

definition pickedUpOnce :: game where
  "pickedUpOnce = snd (addPowerUp ''RAPID_FIRE'' 1000 (initializeGame standardCanvas))"

text \<open>The real number \<open>x\<close> is a double.\<close>

definition isDouble :: "real \<Rightarrow> bool" where
  "isDouble x = (fl x = x)"

text \<open>
  What happens to one enemy while it is in play: a hit of 1 damage, a move (with the
  time-slow multiplier of that frame), the health-bar check of \<open>updateEnemies\<close>.
\<close>

datatype enemy_event = Hit | Move real | BarCheck

fun enemyStep :: "enemy_event \<Rightarrow> enemy \<Rightarrow> enemy" where
  "enemyStep Hit e = takeDamage 1 e"
| "enemyStep (Move m) e = Enemy_update m e"
| "enemyStep BarCheck e = updateHealthBarVisibility e"

fun enemyLife :: "enemy_event list \<Rightarrow> enemy \<Rightarrow> enemy" where
  "enemyLife [] e = e"
| "enemyLife (ev # evs) e = enemyLife evs (enemyStep ev e)"

text \<open>The number of hits among the events.\<close>

definition hitCount :: "enemy_event list \<Rightarrow> nat" where
  "hitCount evs = length (filter (\<lambda>ev. ev = Hit) evs)"

text \<open>A freshly entered game holding one bullet and the one enemy \<open>e\<close>.\<close>

definition oneEnemyGame :: "enemy \<Rightarrow> game" where
  "oneEnemyGame e =
     (GameState_enter (initializeGame standardCanvas))
       \<lparr> bullets := [Bullet_new 100 0 0 (- BULLET_SPEED)], enemies := [e] \<rparr>"


text \<open>An enemy of the usual size at a given position with full health \<open>h\<close>.\<close>

definition enemyAt :: "real \<Rightarrow> real \<Rightarrow> int \<Rightarrow> enemy" where
  "enemyAt ex ey h =
     \<lparr> pos_x = ex, pos_y = ey, width = 30, height = 30, speed = 1, maxHealth = h,
       currentHealth = h, healthBarVisible = False \<rparr>"




text \<open>
  A freshly entered game in which one enemy is spawned at clock reading 3000 (with the
  random numbers \<open>1/2\<close>, \<open>0\<close>, \<open>1/2\<close>) and then moves for 560 frames without being hit.
\<close>

definition approachGame :: game where
  "approachGame =
     (updateEnemies ^^ 560)
       (spawnEnemy 3000 (1/2, 0, 1/2) (GameState_enter (initializeGame standardCanvas)))"

text \<open>
  One bullet and three enemies: the bullet overlaps the enemies at indices 0 and 1 and
  not the one at index 2; the player is out of reach.
\<close>

definition overlapGame :: game where
  "overlapGame =
     (GameState_enter (initializeGame standardCanvas))
       \<lparr> bullets := [Bullet_new 113 110 0 (- BULLET_SPEED)],
         enemies := [enemyAt 100 100 3, enemyAt 105 100 3, enemyAt 300 100 3] \<rparr>"

text \<open>
  A freshly entered game (3 lives, no shield) in which four enemies overlap the player in
  the same frame, none of them having reached it in the frame before.
\<close>

definition fourHitGame :: game where
  "fourHitGame =
     (GameState_enter (initializeGame standardCanvas))
       \<lparr> enemies := [enemyAt 360 521 2, enemyAt 375 522 3, enemyAt 390 521 4, enemyAt 405 522 2] \<rparr>"

text \<open>The box and the speed of the player, without its flags.\<close>

definition geometry :: "player_obj \<Rightarrow> int \<times> int \<times> int \<times> int \<times> int" where
  "geometry p = (pos_x p, pos_y p, width p, height p, pspeed p)"

text \<open>
  What start-up establishes on the canvas of the configured size and every later
  operation keeps: the canvas, the registry, and the player's 30 by 30 box moving at
  \<open>PLAYER_SPEED\<close> inside the canvas on the grid of its speed.
\<close>

definition sessionInv :: "game \<Rightarrow> bool" where
  "sessionInv g =
     (canvas g = Some standardCanvas \<and> statesAsRegistered g \<and>
      inBoundsOnGrid standardCanvas (player g) \<and>
      width (player g) = 30 \<and> height (player g) = 30 \<and> pspeed (player g) = PLAYER_SPEED)"

section \<open>Frame lemmas\<close>

text \<open>What the power-up hooks and the session reset leave alone.\<close>

lemma applyPowerUpEffect_frame:
  "enemySpawnRate (applyPowerUpEffect t a g) = enemySpawnRate g"
  "lives (applyPowerUpEffect t a g) = lives g"
  "score (applyPowerUpEffect t a g) = score g"
  "enemies (applyPowerUpEffect t a g) = enemies g"
  "bullets (applyPowerUpEffect t a g) = bullets g"
  "lastEnemySpawn (applyPowerUpEffect t a g) = lastEnemySpawn g"
  "activePowerUps (applyPowerUpEffect t a g) = activePowerUps g"
  by (simp_all add: applyPowerUpEffect_def Let_def activateLaserBeam_def deactivateLaserBeam_def
      activateShield_def deactivateShield_def activateTimeSlow_def deactivateTimeSlow_def)

lemma foldl_applyPowerUpEffect_frame:
  "enemySpawnRate (foldl (\<lambda>h t. applyPowerUpEffect t a h) g ts) = enemySpawnRate g"
  "lives (foldl (\<lambda>h t. applyPowerUpEffect t a h) g ts) = lives g"
  "score (foldl (\<lambda>h t. applyPowerUpEffect t a h) g ts) = score g"
  "enemies (foldl (\<lambda>h t. applyPowerUpEffect t a h) g ts) = enemies g"
  "bullets (foldl (\<lambda>h t. applyPowerUpEffect t a h) g ts) = bullets g"
  "lastEnemySpawn (foldl (\<lambda>h t. applyPowerUpEffect t a h) g ts) = lastEnemySpawn g"
  "activePowerUps (foldl (\<lambda>h t. applyPowerUpEffect t a h) g ts) = activePowerUps g"
  by (induction ts arbitrary: g) (simp_all add: applyPowerUpEffect_frame)

lemma clearAllPowerUps_frame:
  "enemySpawnRate (clearAllPowerUps g) = enemySpawnRate g"
  "lives (clearAllPowerUps g) = lives g"
  "score (clearAllPowerUps g) = score g"
  "enemies (clearAllPowerUps g) = enemies g"
  "bullets (clearAllPowerUps g) = bullets g"
  "lastEnemySpawn (clearAllPowerUps g) = lastEnemySpawn g"
  by (simp_all add: clearAllPowerUps_def Let_def foldl_applyPowerUpEffect_frame)

lemma GameState_enter_session:
  "enemySpawnRate (GameState_enter g) = INITIAL_ENEMY_SPAWN_RATE"
  "lives (GameState_enter g) = 3"
  "score (GameState_enter g) = 0"
  "enemies (GameState_enter g) = []"
  "bullets (GameState_enter g) = []"
  "lastEnemySpawn (GameState_enter g) = 0"
  by (simp_all add: GameState_enter_def Let_def updateLives_def updateScore_def player_reset_def
      clearAllPowerUps_frame)

section \<open>Enemy spawn interval\<close>

lemma spawnEnemy_rate:
  "enemySpawnRate (spawnEnemy now rnd g) =
     (if now - lastEnemySpawn g > enemySpawnRate g \<and> enemySpawnRate g > MIN_ENEMY_SPAWN_RATE
      then enemySpawnRate g - SPAWN_RATE_DECREASE else enemySpawnRate g)"
  by (simp add: spawnEnemy_def Let_def)

lemma rateInv_spawnEnemy: "rateInv g \<Longrightarrow> rateInv (spawnEnemy now rnd g)"
  unfolding rateInv_def spawnEnemy_rate MIN_ENEMY_SPAWN_RATE_def INITIAL_ENEMY_SPAWN_RATE_def
    SPAWN_RATE_DECREASE_def
  by presburger

lemma rateInv_spawnRun: "rateInv g \<Longrightarrow> rateInv (spawnRun inputs g)"
  by (induction inputs arbitrary: g) (auto simp: rateInv_spawnEnemy)

text \<open>
  Claim C7. Entering the Game state sets the spawn interval to 2000 ms. After any run of
  spawner invocations from there, with any clock readings, one more invocation never
  raises the interval and never takes it below the floor of 800 ms: it lowers it by
  exactly 10 ms when the spawn happens and the interval is above the floor, and leaves it
  as it is otherwise.
\<close>

theorem spawn_interval_non_increasing_and_bounded:
  "INITIAL_ENEMY_SPAWN_RATE = 2000 \<and> MIN_ENEMY_SPAWN_RATE = 800 \<and> SPAWN_RATE_DECREASE = 10 \<and>
   enemySpawnRate (GameState_enter g0) = INITIAL_ENEMY_SPAWN_RATE \<and>
   (let g = spawnRun inputs (GameState_enter g0); g' = spawnEnemy now rnd g
    in enemySpawnRate g' \<le> enemySpawnRate g \<and>
       MIN_ENEMY_SPAWN_RATE \<le> enemySpawnRate g' \<and>
       enemySpawnRate g' =
         (if now - lastEnemySpawn g > enemySpawnRate g \<and> enemySpawnRate g > MIN_ENEMY_SPAWN_RATE
          then enemySpawnRate g - SPAWN_RATE_DECREASE else enemySpawnRate g))"
proof -
  have start: "rateInv (GameState_enter g0)"
    by (simp add: rateInv_def GameState_enter_session INITIAL_ENEMY_SPAWN_RATE_def
        MIN_ENEMY_SPAWN_RATE_def SPAWN_RATE_DECREASE_def)
  define g where "g = spawnRun inputs (GameState_enter g0)"
  have inv: "rateInv g"
    unfolding g_def by (rule rateInv_spawnRun [OF start])
  have inv': "rateInv (spawnEnemy now rnd g)"
    by (rule rateInv_spawnEnemy [OF inv])
  have le: "enemySpawnRate (spawnEnemy now rnd g) \<le> enemySpawnRate g"
    by (simp add: spawnEnemy_rate SPAWN_RATE_DECREASE_def)
  have lo: "MIN_ENEMY_SPAWN_RATE \<le> enemySpawnRate (spawnEnemy now rnd g)"
    using inv' by (simp add: rateInv_def)
  show ?thesis
    using le lo
    by (simp add: Let_def g_def [symmetric] spawnEnemy_rate GameState_enter_session
        INITIAL_ENEMY_SPAWN_RATE_def MIN_ENEMY_SPAWN_RATE_def SPAWN_RATE_DECREASE_def)
qed

section \<open>State registration\<close>

lemma Map_get_Map_set: "Map_get (Map_set k v m) k' = (if k' = k then Some v else Map_get m k')"
  by (induction m) (auto simp: Map_get_def)

lemma Map_keys_Map_set:
  "Map_keys (Map_set k v m) = (if Map_has m k then Map_keys m else Map_keys m @ [k])"
  by (induction m) (auto simp: Map_keys_def Map_has_def)

text \<open>
  Claim C2, as the code has it. Registering a \<open>State\<close> instance under a non-empty name
  succeeds whether or not the name is already registered: afterwards the name maps to
  the new state, every other name maps to what it did, and the name is listed once (a
  registered name keeps its place, a new one is appended). Registration fails, leaving
  the manager as it was, when the name is empty or the state is missing or is not an
  instance of \<open>State\<close>, whatever methods it has.
\<close>

theorem addState_replaces:
  "(name \<noteq> [] \<longrightarrow>
      fst (addState name (StateInstance c) m) \<and>
      Map_get (states (snd (addState name (StateInstance c) m))) name' =
        (if name' = name then Some c else Map_get (states m) name') \<and>
      Map_keys (states (snd (addState name (StateInstance c) m))) =
        (if Map_has (states m) name then Map_keys (states m) else Map_keys (states m) @ [name])) \<and>
   addState [] st m = (False, m) \<and>
   addState name JSNull m = (False, m) \<and>
   addState name (OtherObject methods) m = (False, m)"
  by (simp add: addState_def Map_get_Map_set Map_keys_Map_set)

theorem addState_replaces_witness:
  "''GameState'' \<noteq> [] \<and>
   fst (addState ''GameState'' (StateInstance PauseState)
          (snd (addState ''GameState'' (StateInstance GameState) GameStateManager_new))) \<and>
   Map_get (states (snd (addState ''GameState'' (StateInstance PauseState)
          (snd (addState ''GameState'' (StateInstance GameState) GameStateManager_new))))) ''GameState''
     = Some PauseState"
  using addState_replaces [of "''GameState''" PauseState
      "snd (addState ''GameState'' (StateInstance GameState) GameStateManager_new)" "''GameState''"]
  by simp

text \<open>
  The claim as stated fails: a second registration under the name \<open>GameState\<close> returns
  \<open>true\<close> and the name then maps to the second state, not to the first.
\<close>

theorem addState_same_name_counterexample:
  "fst (addState ''GameState'' (StateInstance GameState) GameStateManager_new) \<and>
   Map_get (states (snd (addState ''GameState'' (StateInstance GameState) GameStateManager_new)))
      ''GameState'' = Some GameState \<and>
   fst (addState ''GameState'' (StateInstance PauseState)
          (snd (addState ''GameState'' (StateInstance GameState) GameStateManager_new))) \<and>
   Map_get (states (snd (addState ''GameState'' (StateInstance PauseState)
          (snd (addState ''GameState'' (StateInstance GameState) GameStateManager_new))))) ''GameState''
     = Some PauseState"
  by (simp add: addState_def GameStateManager_new_def Map_get_def)

section \<open>Pickup construction\<close>

text \<open>
  For a type that names no member of \<open>Object.prototype\<close> the constructor leaves a
  catalog entry in \<open>typeConfig\<close>: the entry of that name, or Rapid Fire.
\<close>

lemma PowerUp_new_fallback:
  "t \<notin> set Object_prototype_props \<Longrightarrow> isCatalogEntry (ptypeConfig (PowerUp_new px py t))"
  "t \<notin> set Object_prototype_props \<Longrightarrow> map_of POWER_UP_TYPES t = None \<Longrightarrow>
     ptypeConfig (PowerUp_new px py t) = Config RAPID_FIRE"
  by (auto simp: PowerUp_new_def POWER_UP_TYPES_get_def isCatalogEntry_def Let_def POWER_UP_TYPES_def
      split: option.splits if_splits)

text \<open>
  Claim C10 at the type string \<open>toString\<close>. It is not one of the six catalog keys, yet
  the lookup finds the member inherited from \<open>Object.prototype\<close>, the validity test
  passes, and \<open>typeConfig\<close> is left holding that member, which is no catalog entry.
\<close>

theorem PowerUp_inherited_name_not_replaced:
  "map_of POWER_UP_TYPES ''toString'' = None \<and>
   ptypeConfig (PowerUp_new px py ''toString'') = Inherited ''toString'' \<and>
   \<not> isCatalogEntry (ptypeConfig (PowerUp_new px py ''toString''))"
  by (simp add: PowerUp_new_def POWER_UP_TYPES_get_def isCatalogEntry_def Let_def POWER_UP_TYPES_def
      Object_prototype_props_def)

section \<open>Player movement\<close>

lemma step_down: "0 < (s::int) \<Longrightarrow> s dvd x \<Longrightarrow> 0 < x \<Longrightarrow> 0 \<le> x - s \<and> s dvd x - s"
  by (auto elim!: dvdE simp: zdvd_imp_le)

lemma step_up: "0 < (s::int) \<Longrightarrow> s dvd x \<Longrightarrow> s dvd b \<Longrightarrow> x < b \<Longrightarrow> x + s \<le> b \<and> s dvd x + s"
proof -
  assume s: "0 < s" and dx: "s dvd x" and db: "s dvd b" and lt: "x < b"
  have "s dvd b - x" using dx db by simp
  moreover have "0 < b - x" using lt by simp
  ultimately have "s \<le> b - x" by (rule zdvd_imp_le)
  then show ?thesis using dx by simp
qed

lemma movePlayer_fields:
  "width (player (movePlayer c g)) = width (player g)"
  "height (player (movePlayer c g)) = height (player g)"
  "pspeed (player (movePlayer c g)) = pspeed (player g)"
  by (simp_all add: movePlayer_def Let_def)

lemma movePlayer_x:
  "pos_x (player (movePlayer c g)) =
     (let canvasWidth = (if canvas_width c = 0 then CANVAS_WIDTH else canvas_width c);
          p = player g;
          x1 = (if keys g ''ArrowLeft'' \<and> pos_x p > 0 then pos_x p - pspeed p else pos_x p)
      in if keys g ''ArrowRight'' \<and> x1 < canvasWidth - width p then x1 + pspeed p else x1)"
  by (simp_all add: movePlayer_def Let_def)

lemma movePlayer_y:
  "pos_y (player (movePlayer c g)) =
     (let canvasHeight = (if canvas_height c = 0 then CANVAS_HEIGHT else canvas_height c);
          p = player g;
          y1 = (if keys g ''ArrowUp'' \<and> pos_y p > 0 then pos_y p - pspeed p else pos_y p)
      in if keys g ''ArrowDown'' \<and> y1 < canvasHeight - height p then y1 + pspeed p else y1)"
  by (simp_all add: movePlayer_def Let_def)

lemma axis_step:
  fixes s x b :: int and l r :: bool
  assumes "0 < s" "0 \<le> x" "x \<le> b" "s dvd x" "s dvd b"
  defines "x1 \<equiv> (if l \<and> x > 0 then x - s else x)"
  defines "x2 \<equiv> (if r \<and> x1 < b then x1 + s else x1)"
  shows "0 \<le> x2 \<and> x2 \<le> b \<and> s dvd x2"
proof -
  have 1: "0 \<le> x1 \<and> x1 \<le> b \<and> s dvd x1"
    using assms(1-5) step_down [of s x] by (auto simp: x1_def)
  then show ?thesis
    using assms(1,5) step_up [of s x1 b] by (auto simp: x2_def)
qed

lemma inBoundsOnGrid_movePlayer:
  assumes "inBoundsOnGrid c (player g)"
  shows "inBoundsOnGrid c (player (movePlayer c g))"
proof -
  let ?p = "player g"
  let ?cw = "if canvas_width c = 0 then CANVAS_WIDTH else canvas_width c"
  let ?ch = "if canvas_height c = 0 then CANVAS_HEIGHT else canvas_height c"
  from assms have s: "0 < pspeed ?p"
    and x: "0 \<le> pos_x ?p" "pos_x ?p \<le> ?cw - width ?p" "pspeed ?p dvd pos_x ?p"
           "pspeed ?p dvd ?cw - width ?p"
    and y: "0 \<le> pos_y ?p" "pos_y ?p \<le> ?ch - height ?p" "pspeed ?p dvd pos_y ?p"
           "pspeed ?p dvd ?ch - height ?p"
    by (simp_all add: inBoundsOnGrid_def Let_def)
  have X: "0 \<le> pos_x (player (movePlayer c g)) \<and> pos_x (player (movePlayer c g)) \<le> ?cw - width ?p
           \<and> pspeed ?p dvd pos_x (player (movePlayer c g))"
    unfolding movePlayer_x Let_def
    by (rule axis_step [OF s x(1) x(2) x(3) x(4)])
  have Y: "0 \<le> pos_y (player (movePlayer c g)) \<and> pos_y (player (movePlayer c g)) \<le> ?ch - height ?p
           \<and> pspeed ?p dvd pos_y (player (movePlayer c g))"
    unfolding movePlayer_y Let_def
    by (rule axis_step [OF s y(1) y(2) y(3) y(4)])
  show ?thesis
    using X Y s x(4) y(4) by (simp add: inBoundsOnGrid_def Let_def movePlayer_fields)
qed

lemma shootBullet_player: "player (shootBullet now g) = player g"
  by (simp add: shootBullet_def createBullets_def Let_def split: bulletPattern.splits)

lemma state_exit_player: "player (state_exit c g) = player g"
  by (cases c) simp_all

lemma state_exit_frame:
  "lives (state_exit c g) = lives g" "enemies (state_exit c g) = enemies g"
  "gameStateManager (state_exit c g) = gameStateManager g"
  by (cases c; simp)+



lemma movePlayer_frame: "gameStateManager (movePlayer c g) = gameStateManager g"
  "keys (movePlayer c g) = keys g"
  by (simp_all add: movePlayer_def Let_def)

lemma shootBullet_frame: "gameStateManager (shootBullet now g) = gameStateManager g"
  by (simp add: shootBullet_def createBullets_def Let_def split: bulletPattern.splits)


lemma applyPowerUpEffect_frame_env:
  "canvas (applyPowerUpEffect t a g) = canvas g"
  "gameStateManager (applyPowerUpEffect t a g) = gameStateManager g"
  "keys (applyPowerUpEffect t a g) = keys g"
  by (simp_all add: applyPowerUpEffect_def Let_def activateLaserBeam_def deactivateLaserBeam_def
      activateShield_def deactivateShield_def activateTimeSlow_def deactivateTimeSlow_def)

lemma foldl_applyPowerUpEffect_frame_env:
  "canvas (foldl (\<lambda>h t. applyPowerUpEffect t a h) g ts) = canvas g"
  "gameStateManager (foldl (\<lambda>h t. applyPowerUpEffect t a h) g ts) = gameStateManager g"
  "keys (foldl (\<lambda>h t. applyPowerUpEffect t a h) g ts) = keys g"
  by (induction ts arbitrary: g) (simp_all add: applyPowerUpEffect_frame_env)

lemma clearAllPowerUps_frame_env:
  "canvas (clearAllPowerUps g) = canvas g"
  "gameStateManager (clearAllPowerUps g) = gameStateManager g"
  "keys (clearAllPowerUps g) = keys g"
  by (simp_all add: clearAllPowerUps_def Let_def foldl_applyPowerUpEffect_frame_env)

lemma GameState_enter_frame_env:
  "canvas (GameState_enter g) = canvas g"
  "gameStateManager (GameState_enter g) = gameStateManager g"
  "keys (GameState_enter g) = keys g"
  by (simp_all add: GameState_enter_def Let_def updateLives_def updateScore_def player_reset_def
      clearAllPowerUps_frame_env)

lemma initializeGame_fields:
  "canvas (initializeGame c) = Some c"
  "gameStateManager (initializeGame c) =
     Some \<lparr> currentState = Some IntroState,
            states = [(''IntroState'', IntroState), (''CharacterSelectState'', CharacterSelectState),
                      (''GameState'', GameState), (''PauseState'', PauseState),
                      (''GameOverState'', GameOverState)],
            initialized = True \<rparr>"
  by (simp_all add: initializeGame_def initializePowerUpManager_def PowerUpManager_initialize_def
      initializeStateManager_def addState_def setState_def GameStateManager_new_def Map_get_def
      Let_def initial_game_def)


section \<open>Power-up effects: refresh and clear\<close>

lemmas hook_defs = activateLaserBeam_def deactivateLaserBeam_def
      activateShield_def deactivateShield_def activateTimeSlow_def deactivateTimeSlow_def

lemma Map_has_Map_set: "Map_has (Map_set k v m) k' = (k' = k \<or> Map_has m k')"
  by (induction m) (auto simp: Map_has_def)

lemma Map_has_Map_delete: "Map_has (Map_delete k m) k' = (k' \<noteq> k \<and> Map_has m k')"
  by (induction m) (auto simp: Map_has_def Map_delete_def)

lemma Map_has_get: "Map_has m k = (Map_get m k \<noteq> None)"
  by (induction m) (auto simp: Map_has_def Map_get_def)

lemma applyPowerUpEffect_table: "activePowerUps (applyPowerUpEffect t a g) = activePowerUps g"
  by (simp add: applyPowerUpEffect_def Let_def hook_defs)

lemma applyPowerUpEffect_player:
  "player (applyPowerUpEffect t a g) =
     (if t = ''RAPID_FIRE'' then (player g)\<lparr> rapidFireActive := a \<rparr>
      else if t = ''MULTI_SHOT'' then (player g)\<lparr> multiShotActive := a \<rparr>
      else if t = ''LASER_BEAM'' then (player g)\<lparr> laserBeamActive := a \<rparr>
      else if t = ''SHIELD_GENERATOR'' then (player g)\<lparr> shieldActive := a, invincible := a \<rparr>
      else if t = ''TIME_SLOW'' then (player g)\<lparr> timeSlowActive := a \<rparr>
      else if t = ''EXPLOSIVE_ROUNDS'' then (player g)\<lparr> explosiveRoundsActive := a \<rparr>
      else player g)"
  by (simp add: applyPowerUpEffect_def Let_def hook_defs)

lemma applyPowerUpEffect_on_inv:
  "flagsFollowTable g \<Longrightarrow> Map_has (activePowerUps g) t \<Longrightarrow> flagsFollowTable (applyPowerUpEffect t True g)"
  by (auto simp: flagsFollowTable_def applyPowerUpEffect_player applyPowerUpEffect_table)

lemma inv_addPowerUp: "flagsFollowTable g \<Longrightarrow> flagsFollowTable (snd (addPowerUp t now g))"
proof -
  assume inv: "flagsFollowTable g"
  show ?thesis
  proof (cases "t = [] \<or> \<not> truthy (POWER_UP_TYPES_get t)")
    case True
    then show ?thesis using inv by (simp add: addPowerUp_def)
  next
    case False
    show ?thesis
    proof (cases "Map_get (activePowerUps g) t")
      case None
      let ?eff = "\<lparr> etype = t, config = POWER_UP_TYPES_get t, startTime = now,
                    endTime = endTime_of (POWER_UP_TYPES_get t) now, active = True \<rparr>"
      let ?g1 = "g\<lparr> activePowerUps := Map_set t ?eff (activePowerUps g) \<rparr>"
      have "flagsFollowTable ?g1"
        using inv by (simp add: flagsFollowTable_def Map_has_Map_set)
      moreover have "Map_has (activePowerUps ?g1) t" by (simp add: Map_has_Map_set)
      ultimately have "flagsFollowTable (applyPowerUpEffect t True ?g1)"
        by (rule applyPowerUpEffect_on_inv)
      then show ?thesis using False None by (simp add: addPowerUp_def Let_def)
    next
      case (Some e)
      then show ?thesis using False inv
        by (simp add: addPowerUp_def Let_def flagsFollowTable_def Map_has_Map_set)
    qed
  qed
qed

lemma inv_removePowerUp: "flagsFollowTable g \<Longrightarrow> flagsFollowTable (snd (removePowerUp t g))"
  by (auto simp: removePowerUp_def Let_def flagsFollowTable_def applyPowerUpEffect_player
      applyPowerUpEffect_table Map_has_Map_delete)

lemma inv_fold_remove:
  "flagsFollowTable g \<Longrightarrow> flagsFollowTable (foldl (\<lambda>h t. snd (removePowerUp t h)) g ts)"
  by (induction ts arbitrary: g) (simp_all add: inv_removePowerUp)

lemma inv_updatePowerUps: "flagsFollowTable g \<Longrightarrow> flagsFollowTable (PowerUpManager_updatePowerUps now g)"
  by (simp add: PowerUpManager_updatePowerUps_def Let_def inv_fold_remove)


lemma inv_cong:
  "player g' = player g \<Longrightarrow> activePowerUps g' = activePowerUps g \<Longrightarrow>
   flagsFollowTable g' = flagsFollowTable g"
  by (simp add: flagsFollowTable_def)

lemma allFlagsOff_inv: "allFlagsOff (player g) \<Longrightarrow> flagsFollowTable g"
  by (simp add: allFlagsOff_def flagsFollowTable_def)

lemma disable_fold_table:
  "activePowerUps (foldl (\<lambda>h t. applyPowerUpEffect t False h) g ts) = activePowerUps g"
  by (induction ts arbitrary: g) (simp_all add: applyPowerUpEffect_table)

lemma applyPowerUpEffect_trace:
  "hookTrace (applyPowerUpEffect t a g) = hookTrace g @ [ApplyEffect t a]"
  by (simp add: applyPowerUpEffect_def Let_def hook_defs)

lemma disable_fold_trace:
  "hookTrace (foldl (\<lambda>h t. applyPowerUpEffect t False h) g ts) =
     hookTrace g @ map (\<lambda>t. ApplyEffect t False) ts"
  by (induction ts arbitrary: g) (simp_all add: applyPowerUpEffect_trace)

lemma disable_fold_flags:
  "rapidFireActive (player (foldl (\<lambda>h t. applyPowerUpEffect t False h) g ts)) =
     (rapidFireActive (player g) \<and> ''RAPID_FIRE'' \<notin> set ts)"
  "multiShotActive (player (foldl (\<lambda>h t. applyPowerUpEffect t False h) g ts)) =
     (multiShotActive (player g) \<and> ''MULTI_SHOT'' \<notin> set ts)"
  "laserBeamActive (player (foldl (\<lambda>h t. applyPowerUpEffect t False h) g ts)) =
     (laserBeamActive (player g) \<and> ''LASER_BEAM'' \<notin> set ts)"
  "shieldActive (player (foldl (\<lambda>h t. applyPowerUpEffect t False h) g ts)) =
     (shieldActive (player g) \<and> ''SHIELD_GENERATOR'' \<notin> set ts)"
  "invincible (player (foldl (\<lambda>h t. applyPowerUpEffect t False h) g ts)) =
     (invincible (player g) \<and> ''SHIELD_GENERATOR'' \<notin> set ts)"
  "timeSlowActive (player (foldl (\<lambda>h t. applyPowerUpEffect t False h) g ts)) =
     (timeSlowActive (player g) \<and> ''TIME_SLOW'' \<notin> set ts)"
  "explosiveRoundsActive (player (foldl (\<lambda>h t. applyPowerUpEffect t False h) g ts)) =
     (explosiveRoundsActive (player g) \<and> ''EXPLOSIVE_ROUNDS'' \<notin> set ts)"
  by (induction ts arbitrary: g) (auto simp: applyPowerUpEffect_player)

lemma clearAllPowerUps_player:
  "player (clearAllPowerUps g) =
     player (foldl (\<lambda>h t. applyPowerUpEffect t False h) g (Map_keys (activePowerUps g)))"
  by (simp add: clearAllPowerUps_def Let_def)

lemma clearAllPowerUps_flags_off:
  "flagsFollowTable g \<Longrightarrow> allFlagsOff (player (clearAllPowerUps g))"
  by (auto simp: allFlagsOff_def clearAllPowerUps_player disable_fold_flags flagsFollowTable_def
      Map_has_def Map_keys_def)

lemma clearAllPowerUps_rest:
  "activePowerUps (clearAllPowerUps g) = []"
  "timeSlowMultiplier (clearAllPowerUps g) = 1"
  "laserActive (clearAllPowerUps g) = False"
  "hookTrace (clearAllPowerUps g) =
     hookTrace g @ map (\<lambda>t. ApplyEffect t False) (Map_keys (activePowerUps g)) @ [TableCleared]"
  by (simp_all add: clearAllPowerUps_def Let_def disable_fold_trace)

lemma inv_clearAllPowerUps: "flagsFollowTable g \<Longrightarrow> flagsFollowTable (clearAllPowerUps g)"
  by (rule allFlagsOff_inv) (rule clearAllPowerUps_flags_off)

lemma player_reset_flags_off: "allFlagsOff (player (player_reset g))"
  by (simp add: allFlagsOff_def player_reset_def)

lemma GameState_enter_flags_off: "allFlagsOff (player (GameState_enter g))"
proof -
  let ?g2 = "player_reset (g\<lparr> gameRunning := True, score := 0, lives := 3, bullets := [], enemies := [],
                   lastEnemySpawn := 0, enemySpawnRate := INITIAL_ENEMY_SPAWN_RATE \<rparr>)"
  have off: "allFlagsOff (player ?g2)" by (rule player_reset_flags_off)
  then have "allFlagsOff (player (clearAllPowerUps ?g2))"
    by (intro clearAllPowerUps_flags_off allFlagsOff_inv)
  with off show ?thesis
    by (simp add: GameState_enter_def Let_def updateLives_def updateScore_def)
qed

lemma inv_state_enter: "flagsFollowTable g \<Longrightarrow> flagsFollowTable (state_enter c g)"
proof (cases c)
  case GameState
  then show ?thesis by (simp add: allFlagsOff_inv GameState_enter_flags_off)
qed (simp_all add: flagsFollowTable_def)

lemma inv_state_exit: "flagsFollowTable g \<Longrightarrow> flagsFollowTable (state_exit c g)"
  by (cases c) (simp_all add: flagsFollowTable_def)

lemma inv_setState: "flagsFollowTable g \<Longrightarrow> flagsFollowTable (snd (setState n g))"
proof -
  assume inv: "flagsFollowTable g"
  have upd: "\<And>h m. flagsFollowTable (h\<lparr> gameStateManager := m \<rparr>) = flagsFollowTable h"
    by (simp add: flagsFollowTable_def)
  show ?thesis
    using inv
    by (auto simp: setState_def Let_def upd inv_state_enter inv_state_exit
        split: option.splits)
qed

lemma inv_gameOver: "flagsFollowTable g \<Longrightarrow> flagsFollowTable (gameOver g)"
proof -
  assume inv: "flagsFollowTable g"
  have stop: "flagsFollowTable (g\<lparr> gameRunning := False \<rparr>)"
    using inv by (simp add: flagsFollowTable_def)
  show ?thesis
    using inv stop by (simp add: gameOver_def inv_setState split: option.splits)
qed

lemma shootBullet_table: "activePowerUps (shootBullet now g) = activePowerUps g"
  by (simp add: shootBullet_def createBullets_def Let_def split: bulletPattern.splits)

lemma inv_movePlayer: "flagsFollowTable (movePlayer c g) = flagsFollowTable g"
  by (simp add: flagsFollowTable_def movePlayer_def Let_def)

lemma inv_keys: "flagsFollowTable (g\<lparr> keys := k \<rparr>) = flagsFollowTable g"
  by (simp add: flagsFollowTable_def)

lemma inv_shootBullet: "flagsFollowTable (shootBullet now g) = flagsFollowTable g"
  by (rule inv_cong) (rule shootBullet_player shootBullet_table)+

lemma inv_GameState_handleInput:
  "flagsFollowTable g \<Longrightarrow> flagsFollowTable (GameState_handleInput now g)"
  by (simp add: GameState_handleInput_def Let_def inv_movePlayer inv_keys inv_shootBullet
      inv_setState split: option.splits)

lemma inv_spawnEnemy: "flagsFollowTable (spawnEnemy now rnd g) = flagsFollowTable g"
  by (rule inv_cong) (simp_all add: spawnEnemy_def Let_def)

lemma explosiveStep_frame:
  "player (explosiveStep cx cy r i g) = player g"
  "activePowerUps (explosiveStep cx cy r i g) = activePowerUps g"
  by (simp_all add: explosiveStep_def Let_def updateScore_def)

lemma explosiveLoop_frame:
  "player (explosiveLoop cx cy r n g) = player g"
  "activePowerUps (explosiveLoop cx cy r n g) = activePowerUps g"
  by (induction n arbitrary: g) (simp_all add: explosiveStep_frame)

lemma bulletHit_frame:
  "player (bulletHit i j g) = player g"
  "activePowerUps (bulletHit i j g) = activePowerUps g"
  by (simp_all add: bulletHit_def Let_def applyExplosiveDamage_def explosiveLoop_frame
      updateScore_def)

lemma enemyScan_frame:
  "player (enemyScan i n g) = player g"
  "activePowerUps (enemyScan i n g) = activePowerUps g"
  by (induction n) (simp_all add: bulletHit_frame)

lemma bulletLoop_frame:
  "player (bulletLoop n g) = player g"
  "activePowerUps (bulletLoop n g) = activePowerUps g"
  by (induction n arbitrary: g) (simp_all add: enemyScan_frame)

lemma inv_playerHit: "flagsFollowTable g \<Longrightarrow> flagsFollowTable (playerHit i g)"
proof -
  assume inv: "flagsFollowTable g"
  have a: "\<And>es. flagsFollowTable (g\<lparr> enemies := es \<rparr>)"
    using inv by (simp add: flagsFollowTable_def)
  have b: "\<And>es. flagsFollowTable (updateLives (- 1) (g\<lparr> enemies := es \<rparr>))"
    using inv by (simp add: flagsFollowTable_def updateLives_def)
  show ?thesis
    using inv a b by (simp add: playerHit_def Let_def inv_gameOver)
qed

lemma inv_playerLoop: "flagsFollowTable g \<Longrightarrow> flagsFollowTable (playerLoop n g)"
  by (induction n arbitrary: g) (simp_all add: inv_playerHit)

lemma inv_checkCollisions: "flagsFollowTable g \<Longrightarrow> flagsFollowTable (checkCollisions g)"
proof -
  assume inv: "flagsFollowTable g"
  have "flagsFollowTable (bulletEnemyPass g)"
    using inv inv_cong [of "bulletEnemyPass g" g]
    by (simp add: bulletEnemyPass_def bulletLoop_frame)
  then show ?thesis
    by (simp add: checkCollisions_def playerEnemyPass_def inv_playerLoop)
qed

lemma inv_applyOp: "flagsFollowTable g \<Longrightarrow> flagsFollowTable (applyOp x g)"
  by (cases x)
    (simp_all add: inv_addPowerUp inv_removePowerUp inv_updatePowerUps inv_clearAllPowerUps
      allFlagsOff_inv player_reset_flags_off inv_setState inv_GameState_handleInput inv_keys
      inv_spawnEnemy inv_checkCollisions)

lemma inv_runOps: "flagsFollowTable g \<Longrightarrow> flagsFollowTable (runOps xs g)"
  by (induction xs arbitrary: g) (simp_all add: inv_applyOp)

lemma initializeGame_player: "player (initializeGame c) = initial_player"
  by (simp add: initializeGame_def initializePowerUpManager_def PowerUpManager_initialize_def
      initializeStateManager_def addState_def setState_def GameStateManager_new_def Map_get_def
      Let_def initial_game_def)

lemma inv_initializeGame: "flagsFollowTable (initializeGame c)"
  by (rule allFlagsOff_inv) (simp add: initializeGame_player allFlagsOff_def initial_player_def)

text \<open>
  Claim C6. Take the game as start-up leaves it and let anything happen to it, in any
  order: pickups of any types, removals, expiry checks, clears, player resets, state
  transitions, input handling, spawning, collision passes. When \<open>clearAllPowerUps\<close>
  then returns, the effect table is empty, the seven player flags are false and the
  time-slow multiplier is 1; it has called \<open>applyPowerUpEffect(type, false)\<close> once for
  each type of the table, in the table's order, and only then cleared the table.
\<close>

theorem clearAllPowerUps_resets_everything:
  "(let g = runOps history (initializeGame c); g' = clearAllPowerUps g
    in activePowerUps g' = [] \<and>
       \<not> rapidFireActive (player g') \<and> \<not> multiShotActive (player g') \<and>
       \<not> laserBeamActive (player g') \<and> \<not> shieldActive (player g') \<and>
       \<not> invincible (player g') \<and> \<not> timeSlowActive (player g') \<and>
       \<not> explosiveRoundsActive (player g') \<and>
       timeSlowMultiplier g' = 1 \<and>
       hookTrace g' =
         hookTrace g @ map (\<lambda>t. ApplyEffect t False) (Map_keys (activePowerUps g)) @ [TableCleared])"
proof -
  have "flagsFollowTable (runOps history (initializeGame c))"
    by (rule inv_runOps) (rule inv_initializeGame)
  then have "allFlagsOff (player (clearAllPowerUps (runOps history (initializeGame c))))"
    by (rule clearAllPowerUps_flags_off)
  then show ?thesis
    by (simp add: Let_def clearAllPowerUps_rest allFlagsOff_def)
qed

lemma distinct_Map_set: "distinct (Map_keys m) \<Longrightarrow> distinct (Map_keys (Map_set k v m))"
  by (simp add: Map_keys_Map_set) (simp add: Map_has_def Map_keys_def)

lemma distinct_Map_delete: "distinct (Map_keys m) \<Longrightarrow> distinct (Map_keys (Map_delete k m))"
  by (simp add: Map_keys_def Map_delete_def distinct_map_filter)

lemma count_key_distinct:
  "distinct (Map_keys m) \<Longrightarrow> Map_has m k \<Longrightarrow> length (filter (\<lambda>p. fst p = k) m) = 1"
proof (induction m)
  case Nil
  then show ?case by (simp add: Map_has_def)
next
  case (Cons p m)
  show ?case
  proof (cases "fst p = k")
    case True
    with Cons.prems have "k \<notin> fst ` set m" by (simp add: Map_keys_def)
    then have "filter (\<lambda>q. fst q = k) m = []" by (auto simp: filter_empty_conv)
    with True show ?thesis by simp
  next
    case False
    with Cons show ?thesis by (simp add: Map_keys_def Map_has_def)
  qed
qed

lemma catalog_key_cases:
  "map_of POWER_UP_TYPES t = Some tc \<Longrightarrow> t \<noteq> [] \<and> POWER_UP_TYPES_get t = Config tc"
  by (auto simp: POWER_UP_TYPES_get_def POWER_UP_TYPES_def split: if_splits)

text \<open>
  Claim C5. Let \<open>t\<close> be one of the six catalog types with entry \<open>tc\<close>, and let the
  effect table (a \<open>Map\<close>: no key twice) hold an effect \<open>e\<close> for \<open>t\<close>. Collecting \<open>t\<close>
  again at clock reading \<open>now\<close> succeeds and leaves exactly one entry for \<open>t\<close>: the same
  effect with its end time set to \<open>now + duration\<close>, whatever the end time was before.
  The keys of the table, the hook trace and the player are unchanged, so no hook runs.
  Collecting \<open>t\<close> while it is not in the table creates the effect and calls the enable
  hook once.
\<close>

theorem addPowerUp_refreshes_single_effect:
  assumes cat: "map_of POWER_UP_TYPES t = Some tc"
      and wf: "distinct (Map_keys (activePowerUps g))"
      and act: "Map_get (activePowerUps g) t = Some e"
  shows "fst (addPowerUp t now g) \<and>
         (let g' = snd (addPowerUp t now g)
          in length (filter (\<lambda>p. fst p = t) (activePowerUps g')) = 1 \<and>
             Map_get (activePowerUps g') t = Some (e\<lparr> endTime := Num (now + duration tc) \<rparr>) \<and>
             Map_keys (activePowerUps g') = Map_keys (activePowerUps g) \<and>
             hookTrace g' = hookTrace g \<and> player g' = player g) \<and>
         (Map_get (activePowerUps g0) t = None \<longrightarrow>
            (let g1 = snd (addPowerUp t now0 g0)
             in hookTrace g1 = hookTrace g0 @ [ApplyEffect t True] \<and>
                Map_get (activePowerUps g1) t =
                  Some \<lparr> etype = t, config = Config tc, startTime = now0,
                         endTime = Num (now0 + duration tc), active = True \<rparr>))"
proof -
  from cat have ne: "t \<noteq> []" and cfg: "POWER_UP_TYPES_get t = Config tc"
    by (simp_all add: catalog_key_cases)
  from act have has: "Map_has (activePowerUps g) t" by (simp add: Map_has_get)
  let ?tbl = "Map_set t (e\<lparr> endTime := Num (now + duration tc) \<rparr>) (activePowerUps g)"
  have res: "addPowerUp t now g = (True, g\<lparr> activePowerUps := ?tbl \<rparr>)"
    using ne cfg act by (simp add: addPowerUp_def Let_def endTime_of_def)
  have keys: "Map_keys ?tbl = Map_keys (activePowerUps g)"
    using has by (simp add: Map_keys_Map_set)
  have one: "length (filter (\<lambda>p. fst p = t) ?tbl) = 1"
    by (rule count_key_distinct) (simp_all add: keys wf Map_has_Map_set)
  have first: "Map_get (activePowerUps g0) t = None \<Longrightarrow>
      hookTrace (snd (addPowerUp t now0 g0)) = hookTrace g0 @ [ApplyEffect t True] \<and>
      Map_get (activePowerUps (snd (addPowerUp t now0 g0))) t =
        Some \<lparr> etype = t, config = Config tc, startTime = now0,
               endTime = Num (now0 + duration tc), active = True \<rparr>"
    using ne cfg
    by (simp add: addPowerUp_def Let_def endTime_of_def applyPowerUpEffect_trace
        applyPowerUpEffect_table Map_get_Map_set)
  show ?thesis
    using one keys first by (simp add: res Let_def Map_get_Map_set)
qed


lemma initializeGame_table: "activePowerUps (initializeGame c) = []"
  by (simp add: initializeGame_def initializePowerUpManager_def PowerUpManager_initialize_def)

lemma pickedUpOnce_table:
  "activePowerUps pickedUpOnce =
     [(''RAPID_FIRE'', \<lparr> etype = ''RAPID_FIRE'', config = Config RAPID_FIRE, startTime = 1000,
                          endTime = Num 11000, active = True \<rparr>)]"
  by (simp add: pickedUpOnce_def addPowerUp_def Let_def initializeGame_table Map_get_def
      applyPowerUpEffect_table POWER_UP_TYPES_get_def POWER_UP_TYPES_def endTime_of_def
      RAPID_FIRE_def)

theorem addPowerUp_refreshes_single_effect_witness:
  "map_of POWER_UP_TYPES ''RAPID_FIRE'' = Some RAPID_FIRE \<and>
   distinct (Map_keys (activePowerUps pickedUpOnce)) \<and>
   Map_get (activePowerUps pickedUpOnce) ''RAPID_FIRE'' =
     Some \<lparr> etype = ''RAPID_FIRE'', config = Config RAPID_FIRE, startTime = 1000,
            endTime = Num 11000, active = True \<rparr> \<and>
   fst (addPowerUp ''RAPID_FIRE'' 4000 pickedUpOnce) \<and>
   length (filter (\<lambda>p. fst p = ''RAPID_FIRE'')
            (activePowerUps (snd (addPowerUp ''RAPID_FIRE'' 4000 pickedUpOnce)))) = 1 \<and>
   Map_get (activePowerUps (snd (addPowerUp ''RAPID_FIRE'' 4000 pickedUpOnce))) ''RAPID_FIRE'' =
     Some \<lparr> etype = ''RAPID_FIRE'', config = Config RAPID_FIRE, startTime = 1000,
            endTime = Num 14000, active = True \<rparr> \<and>
   hookTrace (snd (addPowerUp ''RAPID_FIRE'' 4000 pickedUpOnce)) = hookTrace pickedUpOnce"
proof -
  have cat: "map_of POWER_UP_TYPES ''RAPID_FIRE'' = Some RAPID_FIRE"
    by (simp add: POWER_UP_TYPES_def)
  have wf: "distinct (Map_keys (activePowerUps pickedUpOnce))"
    by (simp add: pickedUpOnce_table Map_keys_def)
  have act: "Map_get (activePowerUps pickedUpOnce) ''RAPID_FIRE'' =
     Some \<lparr> etype = ''RAPID_FIRE'', config = Config RAPID_FIRE, startTime = 1000,
            endTime = Num 11000, active = True \<rparr>"
    by (simp add: pickedUpOnce_table Map_get_def)
  show ?thesis
    using addPowerUp_refreshes_single_effect [OF cat wf act, of 4000] cat wf act
    by (simp add: Let_def RAPID_FIRE_def)
qed

section \<open>Rounding to double precision\<close>

lemma roundHalfEven_of_int [simp]: "roundHalfEven (of_int n) = n"
  by (simp add: roundHalfEven_def)

lemma roundHalfEven_bounds:
  "of_int (roundHalfEven y) \<le> y + 1/2" "y - 1/2 \<le> of_int (roundHalfEven y)"
  by (simp_all add: roundHalfEven_def Let_def) linarith+

lemma roundHalfEven_ge: "of_int a \<le> y \<Longrightarrow> a \<le> roundHalfEven y"
proof -
  assume "of_int a \<le> y"
  then have "a \<le> \<lfloor>y\<rfloor>" by (simp add: le_floor_iff)
  then show ?thesis by (simp add: roundHalfEven_def Let_def)
qed

lemma roundHalfEven_le: "y \<le> of_int b \<Longrightarrow> roundHalfEven y \<le> b"
proof -
  assume le: "y \<le> of_int b"
  show ?thesis
  proof (cases "y = of_int b")
    case True
    then show ?thesis by simp
  next
    case False
    with le have "y < of_int b" by simp
    then have "\<lfloor>y\<rfloor> < b" by (simp add: floor_less_iff)
    then show ?thesis by (simp add: roundHalfEven_def Let_def)
  qed
qed

lemma roundHalfEven_mono: "x \<le> y \<Longrightarrow> roundHalfEven x \<le> roundHalfEven y"
proof -
  assume le: "x \<le> y"
  have fle: "\<lfloor>x\<rfloor> \<le> \<lfloor>y\<rfloor>" using le by (rule floor_mono)
  show ?thesis
  proof (cases "\<lfloor>x\<rfloor> = \<lfloor>y\<rfloor>")
    case True
    with le show ?thesis by (auto simp: roundHalfEven_def Let_def)
  next
    case False
    with fle have "\<lfloor>x\<rfloor> + 1 \<le> \<lfloor>y\<rfloor>" by simp
    moreover have "roundHalfEven x \<le> \<lfloor>x\<rfloor> + 1" by (simp add: roundHalfEven_def Let_def)
    moreover have "\<lfloor>y\<rfloor> \<le> roundHalfEven y" by (simp add: roundHalfEven_def Let_def)
    ultimately show ?thesis by linarith
  qed
qed

lemma roundHalfEven_minus: "roundHalfEven (- y) = - roundHalfEven y"
proof (cases "y = of_int \<lfloor>y\<rfloor>")
  case True
  then have "roundHalfEven y = \<lfloor>y\<rfloor>" by (metis roundHalfEven_of_int)
  moreover have "roundHalfEven (- y) = - \<lfloor>y\<rfloor>"
    using True by (metis of_int_minus roundHalfEven_of_int)
  ultimately show ?thesis by simp
next
  case False
  have lo: "of_int \<lfloor>y\<rfloor> < y" using False of_int_floor_le [of y] by linarith
  have hi: "y < of_int \<lfloor>y\<rfloor> + 1" by linarith
  have c: "\<lfloor>- y\<rfloor> = - \<lfloor>y\<rfloor> - 1"
  proof (rule floor_unique)
    show "of_int (- \<lfloor>y\<rfloor> - 1) \<le> - y" by simp linarith
    show "- y < of_int (- \<lfloor>y\<rfloor> - 1) + 1" using lo by simp
  qed
  show ?thesis
    using lo by (auto simp: roundHalfEven_def Let_def c)
qed

lemma ulp_pos [simp]: "0 < ulp x"
  by (simp add: ulp_def)

lemma ulp_nonneg [simp]: "0 \<le> ulp x"
  by (simp add: ulp_def)

lemma ulp_scale52: "2 powr 52 * ulp x = 2 powr of_int (binade x)"
  unfolding ulp_def powr_add [symmetric] by simp

lemma ulp_scale53: "2 powr 53 * ulp x = 2 powr (of_int (binade x) + 1)"
  unfolding ulp_def powr_add [symmetric] by (simp add: add.commute)

lemma div_ulp_mono: "a \<le> b \<Longrightarrow> a / ulp x \<le> b / ulp x"
  by (rule divide_right_mono) simp_all

lemma binade_ge [simp]: "- 1022 \<le> binade x"
  by (simp add: binade_def)

lemma binade_minus [simp]: "binade (- x) = binade x"
  by (simp add: binade_def)

lemma ulp_minus [simp]: "ulp (- x) = ulp x"
  by (simp add: ulp_def)

lemma fl_minus: "fl (- x) = - fl x"
  by (simp add: fl_def roundHalfEven_minus)

lemma fl_zero [simp]: "fl 0 = 0"
  by (simp add: fl_def)

lemma binade_eq:
  assumes "x \<noteq> 0" and "- 1022 \<le> e" and "2 powr of_int e \<le> \<bar>x\<bar>" and "\<bar>x\<bar> < 2 powr (of_int e + 1)"
  shows "binade x = e"
proof -
  have "\<lfloor>log 2 \<bar>x\<bar>\<rfloor> = e"
    using assms by (subst floor_log_eq_powr_iff) simp_all
  then show ?thesis using assms(2) by (simp add: binade_def)
qed

lemma binade_subnormal:
  assumes "x \<noteq> 0" and "\<bar>x\<bar> < 2 powr (- 1022)"
  shows "binade x = - 1022"
proof -
  have "log 2 \<bar>x\<bar> < - 1022"
    using assms by (simp add: log_less_iff)
  then have "\<lfloor>log 2 \<bar>x\<bar>\<rfloor> < - 1022" by (simp add: floor_less_iff)
  then show ?thesis by (simp add: binade_def)
qed

lemma binade_cases:
  assumes "x \<noteq> 0"
  shows "(\<bar>x\<bar> < 2 powr (- 1022) \<and> binade x = - 1022) \<or>
         (2 powr of_int (binade x) \<le> \<bar>x\<bar> \<and> \<bar>x\<bar> < 2 powr (of_int (binade x) + 1))"
proof (cases "\<bar>x\<bar> < 2 powr (- 1022)")
  case True
  then show ?thesis using assms by (simp add: binade_subnormal)
next
  case False
  then have ge: "2 powr (- 1022) \<le> \<bar>x\<bar>" by simp
  then have "- 1022 \<le> log 2 \<bar>x\<bar>" using assms by (simp add: le_log_iff)
  then have "- 1022 \<le> \<lfloor>log 2 \<bar>x\<bar>\<rfloor>" by (simp add: le_floor_iff)
  then have b: "binade x = \<lfloor>log 2 \<bar>x\<bar>\<rfloor>" by (simp add: binade_def)
  have "2 powr of_int \<lfloor>log 2 \<bar>x\<bar>\<rfloor> \<le> \<bar>x\<bar> \<and> \<bar>x\<bar> < 2 powr (of_int \<lfloor>log 2 \<bar>x\<bar>\<rfloor> + 1)"
    using assms floor_log_eq_powr_iff [of "\<bar>x\<bar>" 2 "\<lfloor>log 2 \<bar>x\<bar>\<rfloor>"] by simp
  then show ?thesis by (simp add: b)
qed

lemma binade_mono:
  assumes "0 < x" and "x \<le> y"
  shows "binade x \<le> binade y"
proof -
  have "log 2 x \<le> log 2 y" using assms by simp
  then have "\<lfloor>log 2 x\<rfloor> \<le> \<lfloor>log 2 y\<rfloor>" by (rule floor_mono)
  then show ?thesis using assms by (simp add: binade_def)
qed

lemma fl_eval:
  assumes "x \<noteq> 0" and "- 1022 \<le> e" and "2 powr of_int e \<le> \<bar>x\<bar>" and "\<bar>x\<bar> < 2 powr (of_int e + 1)"
  shows "fl x = of_int (roundHalfEven (x / 2 powr (of_int e - 52))) * 2 powr (of_int e - 52)"
  using assms(1) binade_eq [OF assms] by (simp add: fl_def ulp_def)

lemma fl_nonneg: "0 \<le> x \<Longrightarrow> 0 \<le> fl x"
proof -
  assume "0 \<le> x"
  then have "0 \<le> x / ulp x" by (intro divide_nonneg_nonneg) simp_all
  then have "0 \<le> roundHalfEven (x / ulp x)" using roundHalfEven_ge [of 0] by simp
  then show ?thesis by (simp add: fl_def)
qed

lemma fl_upper:
  assumes "0 < x"
  shows "fl x \<le> 2 powr (of_int (binade x) + 1)"
proof -
  have x: "x \<noteq> 0" "\<bar>x\<bar> = x" using assms by simp_all
  have "x < 2 powr (of_int (binade x) + 1)"
  proof -
    from binade_cases [OF x(1)] show ?thesis
    proof
      assume a: "\<bar>x\<bar> < 2 powr (- 1022) \<and> binade x = - 1022"
      then have "x < 2 powr (- 1022)" using x by simp
      also have "\<dots> \<le> 2 powr (- 1021)" by (rule powr_mono) simp_all
      finally show ?thesis using a by simp
    next
      assume "2 powr of_int (binade x) \<le> \<bar>x\<bar> \<and> \<bar>x\<bar> < 2 powr (of_int (binade x) + 1)"
      then show ?thesis using x by simp
    qed
  qed
  then have "x / ulp x \<le> 2 powr (of_int (binade x) + 1) / ulp x"
    by (intro div_ulp_mono) simp
  also have "2 powr (of_int (binade x) + 1) / ulp x = 2 powr 53"
    by (simp add: ulp_def powr_diff [symmetric])
  also have "\<dots> = of_int (2 ^ 53)" by simp
  finally have "roundHalfEven (x / ulp x) \<le> 2 ^ 53" by (rule roundHalfEven_le)
  then have "of_int (roundHalfEven (x / ulp x)) * ulp x \<le> of_int (2 ^ 53) * ulp x"
    by (intro mult_right_mono) (simp_all del: of_int_power)
  also have "of_int (2 ^ 53) * ulp x = 2 powr 53 * ulp x" by simp
  also have "\<dots> = 2 powr (of_int (binade x) + 1)"
    by (rule ulp_scale53)
  finally show ?thesis using x by (simp add: fl_def)
qed

lemma fl_lower:
  assumes "0 < x" and "2 powr of_int (binade x) \<le> x"
  shows "2 powr of_int (binade x) \<le> fl x"
proof -
  have x: "x \<noteq> 0" using assms by simp
  have "2 powr of_int (binade x) / ulp x \<le> x / ulp x"
    using assms(2) by (rule div_ulp_mono)
  moreover have "2 powr of_int (binade x) / ulp x = 2 powr 52"
    by (simp add: ulp_def powr_diff [symmetric])
  moreover have "(2::real) powr 52 = of_int (2 ^ 52)" by simp
  ultimately have "of_int (2 ^ 52) \<le> x / ulp x" by simp
  then have "2 ^ 52 \<le> roundHalfEven (x / ulp x)" by (rule roundHalfEven_ge)
  then have a: "of_int (2 ^ 52) * ulp x \<le> of_int (roundHalfEven (x / ulp x)) * ulp x"
    by (intro mult_right_mono) (simp_all del: of_int_power)
  have "2 powr of_int (binade x) = 2 powr 52 * ulp x"
    by (rule ulp_scale52 [symmetric])
  also have "\<dots> = of_int (2 ^ 52) * ulp x" by simp
  also note a
  finally show ?thesis using x by (simp add: fl_def)
qed

lemma fl_mono_pos:
  assumes "0 < x" and "x \<le> y"
  shows "fl x \<le> fl y"
proof -
  have y: "0 < y" "y \<noteq> 0" "\<bar>y\<bar> = y" using assms by simp_all
  have x: "x \<noteq> 0" using assms by simp
  have b: "binade x \<le> binade y" using assms by (rule binade_mono)
  show ?thesis
  proof (cases "binade x = binade y")
    case True
    then have u: "ulp x = ulp y" by (simp add: ulp_def)
    have "x / ulp y \<le> y / ulp y" using assms(2) by (rule div_ulp_mono)
    then have "roundHalfEven (x / ulp y) \<le> roundHalfEven (y / ulp y)" by (rule roundHalfEven_mono)
    then have "of_int (roundHalfEven (x / ulp y)) * ulp y \<le> of_int (roundHalfEven (y / ulp y)) * ulp y"
      by (intro mult_right_mono) simp_all
    then show ?thesis using x y by (simp add: fl_def u)
  next
    case False
    with b have lt: "binade x + 1 \<le> binade y" by simp
    then have "binade y \<noteq> - 1022" using binade_ge [of x] by linarith
    with binade_cases [OF y(2)] have "2 powr of_int (binade y) \<le> y" using y by auto
    then have "2 powr of_int (binade y) \<le> fl y" using y(1) by (intro fl_lower)
    moreover have "fl x \<le> 2 powr (of_int (binade x) + 1)" using assms(1) by (rule fl_upper)
    moreover have "(2::real) powr (of_int (binade x) + 1) \<le> 2 powr of_int (binade y)"
    proof (rule powr_mono)
      have "real_of_int (binade x + 1) \<le> real_of_int (binade y)" using lt by (simp only: of_int_le_iff)
      then show "real_of_int (binade x) + 1 \<le> real_of_int (binade y)" by simp
    qed simp
    ultimately show ?thesis by linarith
  qed
qed

lemma fl_mono: "x \<le> y \<Longrightarrow> fl x \<le> fl y"
proof -
  assume le: "x \<le> y"
  consider "0 < x" | "x \<le> 0 \<and> 0 \<le> y" | "y < 0" using le by linarith
  then show ?thesis
  proof cases
    case 1
    then show ?thesis using le by (rule fl_mono_pos)
  next
    case 2
    then have "0 \<le> fl y" by (simp add: fl_nonneg)
    moreover have "0 \<le> fl (- x)" using 2 by (simp add: fl_nonneg)
    ultimately show ?thesis by (simp add: fl_minus)
  next
    case 3
    then have "fl (- y) \<le> fl (- x)" using le by (intro fl_mono_pos) simp_all
    then show ?thesis by (simp add: fl_minus)
  qed
qed

lemma roundHalfEven_numeral [simp]: "roundHalfEven (numeral n) = numeral n"
  using roundHalfEven_of_int [of "numeral n"] by simp

lemma roundHalfEven_zero [simp]: "roundHalfEven 0 = 0"
  using roundHalfEven_of_int [of 0] by simp

lemma roundHalfEven_one [simp]: "roundHalfEven 1 = 1"
  using roundHalfEven_of_int [of 1] by simp

lemma fl_exact: "x / ulp x = of_int k \<Longrightarrow> fl x = x"
proof -
  assume a: "x / ulp x = of_int k"
  have "ulp x \<noteq> 0" by (simp add: ulp_def)
  with a have "x = of_int k * ulp x" by (simp add: field_simps)
  then show ?thesis using a by (simp add: fl_def)
qed

lemma fl_eval_scale:
  assumes "- 1022 \<le> e" and "s = 2 powr (of_int e - 52)"
      and "2 ^ 52 * s \<le> \<bar>x\<bar>" and "\<bar>x\<bar> < 2 ^ 53 * s"
  shows "fl x = of_int (roundHalfEven (x / s)) * s"
proof -
  have s: "0 < s" using assms(2) by simp
  have p: "(2::real) ^ 52 = 2 powr 52" "(2::real) ^ 53 = 2 powr 53" by simp_all
  have "(2::real) ^ 52 * s = 2 powr 52 * 2 powr (of_int e - 52)" by (simp only: p assms(2))
  also have "\<dots> = 2 powr (52 + (of_int e - 52))" by (simp only: powr_add)
  finally have a: "(2::real) ^ 52 * s = 2 powr of_int e" by simp
  have "(2::real) ^ 53 * s = 2 powr 53 * 2 powr (of_int e - 52)" by (simp only: p assms(2))
  also have "\<dots> = 2 powr (53 + (of_int e - 52))" by (simp only: powr_add)
  finally have b: "(2::real) ^ 53 * s = 2 powr (of_int e + 1)" by (simp add: add.commute)
  have "0 < 2 ^ 52 * s" using s by simp
  then have "0 < \<bar>x\<bar>" using assms(3) by linarith
  then have x: "x \<noteq> 0" by simp
  show ?thesis
    using fl_eval [OF x assms(1), unfolded a [symmetric] b [symmetric], OF assms(3) assms(4)]
    by (simp add: assms(2))
qed

lemma fl_div_pow2:
  assumes "\<bar>k\<bar> < 2 ^ 53" and "n \<le> 1022"
  shows "fl (of_int k / 2 ^ n) = of_int k / 2 ^ n"
proof (cases "k = 0")
  case True
  then show ?thesis by simp
next
  case False
  define a :: real where "a = \<bar>of_int k\<bar>"
  define m where "m = \<lfloor>log 2 a\<rfloor>"
  define x :: real where "x = of_int k / 2 ^ n"
  have a1: "1 \<le> a" using False by (simp add: a_def)
  have a53: "a < 2 powr 53"
  proof -
    have "real_of_int \<bar>k\<bar> < real_of_int (2 ^ 53)" using assms(1) by (simp only: of_int_less_iff)
    then show ?thesis by (simp add: a_def)
  qed
  have bnd: "2 powr of_int m \<le> a \<and> a < 2 powr (of_int m + 1)"
    using a1 floor_log_eq_powr_iff [of a 2 m] by (simp add: m_def)
  have m0: "0 \<le> m"
  proof -
    have "0 \<le> log 2 a" using a1 by simp
    then show ?thesis by (simp add: m_def)
  qed
  have m52: "m \<le> 52"
  proof -
    have lt: "(2::real) powr of_int m < 2 powr 53" using bnd a53 by linarith
    have "real_of_int m < 53" by (rule powr_less_cancel [OF lt]) simp
    then show ?thesis by linarith
  qed
  have pn: "(2::real) ^ n = 2 powr of_int (int n)" by (simp add: powr_realpow)
  have ax: "\<bar>x\<bar> = a / 2 powr of_int (int n)" by (simp add: x_def a_def pn)
  have lo: "2 powr of_int (m - int n) \<le> \<bar>x\<bar>"
  proof -
    have "(2::real) powr of_int (m - int n) = 2 powr of_int m / 2 powr of_int (int n)"
      by (simp add: powr_diff)
    also have "\<dots> \<le> a / 2 powr of_int (int n)" using bnd by (simp add: divide_right_mono)
    finally show ?thesis by (simp add: ax)
  qed
  have hi: "\<bar>x\<bar> < 2 powr (of_int (m - int n) + 1)"
  proof -
    have "a / 2 powr of_int (int n) < 2 powr (of_int m + 1) / 2 powr of_int (int n)"
      using bnd by (simp add: divide_strict_right_mono)
    also have "\<dots> = 2 powr (of_int (m - int n) + 1)"
      unfolding powr_diff [symmetric] by (simp add: algebra_simps)
    finally show ?thesis by (simp add: ax)
  qed
  have x0: "x \<noteq> 0" using False by (simp add: x_def)
  have e: "- 1022 \<le> m - int n" using m0 assms(2) by simp
  have b: "binade x = m - int n" by (rule binade_eq [OF x0 e lo hi])
  define j where "j = nat (52 - m)"
  have j: "real j = 52 - real_of_int m" using m52 by (simp add: j_def)
  have "x / ulp x = of_int k / 2 powr of_int (int n) / 2 powr (of_int (m - int n) - 52)"
    by (simp add: ulp_def b) (simp add: x_def pn)
  also have "\<dots> = of_int k / (2 powr of_int (int n) * 2 powr (of_int (m - int n) - 52))"
    by simp
  also have "2 powr of_int (int n) * 2 powr (of_int (m - int n) - 52) = (2::real) powr (- real j)"
    unfolding powr_add [symmetric] by (simp add: j)
  also have "of_int k / 2 powr (- real j) = of_int k * 2 powr real j"
    by (simp add: powr_minus divide_inverse)
  also have "\<dots> = of_int (k * 2 ^ j)" by (simp add: powr_realpow)
  finally have "fl x = x" by (rule fl_exact)
  then show ?thesis by (simp add: x_def)
qed

lemma fl_of_int: "\<bar>k\<bar> < 2 ^ 53 \<Longrightarrow> fl (of_int k) = of_int k"
  using fl_div_pow2 [of k 0] by simp

lemma fl_numeral: "numeral n < (9007199254740992::int) \<Longrightarrow> fl (numeral n) = numeral n"
  using fl_of_int [of "numeral n"] by simp

lemma fl_one: "fl 1 = 1"
  using fl_of_int [of 1] by simp


lemma fl_three_halves: "fl (3/2) = 3/2"
  using fl_div_pow2 [of 3 1] by simp

lemma fl_two_thirds_times_three: "fl (6004799503160661 / 2 ^ 53 * 3) = 2"
proof -
  have "fl (6004799503160661 / 2 ^ 53 * 3) =
        of_int (roundHalfEven (6004799503160661 / 2 ^ 53 * 3 / (1 / 2 ^ 52))) * (1 / 2 ^ 52)"
    by (rule fl_eval_scale [of 0]) (simp_all add: powr_neg_numeral)
  also have "\<dots> = 2" by (simp add: roundHalfEven_def)
  finally show ?thesis .
qed

lemma fl_below_three: "fl (3 - 3 / 2 ^ 53) = 3 - 1 / 2 ^ 51"
proof -
  have "fl (3 - 3 / 2 ^ 53) =
        of_int (roundHalfEven ((3 - 3 / 2 ^ 53) / (1 / 2 ^ 51))) * (1 / 2 ^ 51)"
    by (rule fl_eval_scale [of 1]) (simp_all add: powr_neg_numeral)
  also have "\<dots> = 3 - 1 / 2 ^ 51" by (simp add: roundHalfEven_def)
  finally show ?thesis .
qed




lemma double_below_one:
  assumes "fl r = r" and "r < 1"
  shows "r \<le> 1 - 1 / 2 ^ 53"
proof (cases "r < 1/2")
  case True
  then show ?thesis by simp
next
  case False
  define k where "k = roundHalfEven (r / (1 / 2 ^ 53))"
  have "fl r = of_int k * (1 / 2 ^ 53)"
    unfolding k_def using False assms(2)
    by (intro fl_eval_scale [of "- 1"]) (simp_all add: powr_neg_numeral)
  then have r: "r = of_int k / 2 ^ 53" using assms(1) by simp
  then have "real_of_int k < real_of_int (2 ^ 53)" using assms(2) by simp
  then have "k < 2 ^ 53" by (simp only: of_int_less_iff)
  then have "k \<le> 2 ^ 53 - 1" by simp
  then have "real_of_int k \<le> real_of_int (2 ^ 53 - 1)" by (simp only: of_int_le_iff)
  then show ?thesis by (simp add: r field_simps)
qed

lemma floor_random_times_three:
  assumes "fl r = r" and "0 \<le> r" and "r < 1"
  shows "0 \<le> \<lfloor>fl (r * 3)\<rfloor> \<and> \<lfloor>fl (r * 3)\<rfloor> \<le> 2"
proof -
  have "r * 3 \<le> 3 - 3 / 2 ^ 53" using double_below_one [OF assms(1,3)] by simp
  then have "fl (r * 3) \<le> fl (3 - 3 / 2 ^ 53)" by (rule fl_mono)
  moreover have "fl (3 - 3 / 2 ^ 53) < 3" unfolding fl_below_three by simp
  ultimately have "fl (r * 3) < 3" by linarith
  then have "\<lfloor>fl (r * 3)\<rfloor> < 3" by (simp add: floor_less_iff)
  moreover have "0 \<le> fl (r * 3)" using assms(2) by (intro fl_nonneg) simp
  ultimately show ?thesis by simp
qed

section \<open>Enemy health\<close>

lemma Enemy_new_health:
  assumes "isDouble r3" "0 \<le> r3" "r3 < 1"
  shows "2 \<le> maxHealth (Enemy_new cv r1 r2 r3) \<and> maxHealth (Enemy_new cv r1 r2 r3) \<le> 4 \<and>
         currentHealth (Enemy_new cv r1 r2 r3) = maxHealth (Enemy_new cv r1 r2 r3)"
proof -
  have "0 \<le> \<lfloor>fl (r3 * 3)\<rfloor> \<and> \<lfloor>fl (r3 * 3)\<rfloor> \<le> 2"
    using assms by (intro floor_random_times_three) (simp_all add: isDouble_def)
  then show ?thesis by (simp add: Enemy_new_def Let_def)
qed

lemma enemyStep_health:
  "maxHealth (enemyStep ev e) = maxHealth e"
  "currentHealth (enemyStep ev e) =
     (if ev = Hit then max 0 (currentHealth e - 1) else currentHealth e)"
  by (cases ev; simp add: takeDamage_def Enemy_update_def updateHealthBarVisibility_def Let_def max_def)+

lemma enemyLife_health:
  "maxHealth (enemyLife evs e) = maxHealth e"
  "0 \<le> currentHealth e \<Longrightarrow>
     currentHealth (enemyLife evs e) = max 0 (currentHealth e - int (hitCount evs))"
proof (induction evs arbitrary: e)
  case Nil
  { case 1 show ?case by simp }
  { case 2 then show ?case by (simp add: hitCount_def) }
next
  case (Cons ev evs)
  { case 1 show ?case by (simp add: Cons.IH(1) enemyStep_health) }
  { case 2
    then have "0 \<le> currentHealth (enemyStep ev e)" by (simp add: enemyStep_health)
    then have "currentHealth (enemyLife evs (enemyStep ev e)) =
        max 0 (currentHealth (enemyStep ev e) - int (hitCount evs))"
      by (rule Cons.IH(2))
    then show ?case using 2 by (auto simp: enemyStep_health hitCount_def max_def) }
qed

lemma enemyLife_snoc: "enemyLife (evs @ [ev]) e = enemyStep ev (enemyLife evs e)"
  by (induction evs arbitrary: e) simp_all

lemma hitCount_snoc_Hit: "hitCount (evs @ [Hit]) = Suc (hitCount evs)"
  by (simp add: hitCount_def)

lemma takeDamage_visible: "(takeDamage a e)\<lparr> healthBarVisible := True \<rparr> = takeDamage a e"
  by (simp add: takeDamage_def Let_def)

lemma bulletHit_single:
  "\<not> explosiveRoundsActive (player g) \<Longrightarrow>
   bullets (bulletHit i j g) = splice1 i (bullets g) \<and>
   enemies (bulletHit i j g) =
     (if isDestroyed (takeDamage 1 (enemies g ! j)) then splice1 j (enemies g)
      else (enemies g)[j := takeDamage 1 (enemies g ! j)]) \<and>
   score (bulletHit i j g) =
     (if isDestroyed (takeDamage 1 (enemies g ! j)) then score g + 10 else score g) \<and>
   lives (bulletHit i j g) = lives g"
  by (simp add: bulletHit_def Let_def updateScore_def takeDamage_visible)

lemma oneEnemyGame_fields:
  "enemies (oneEnemyGame e) = [e]"
  "\<not> explosiveRoundsActive (player (oneEnemyGame e))"
  "score (oneEnemyGame e) = 0"
  using GameState_enter_flags_off [of "initializeGame standardCanvas"]
  by (simp_all add: oneEnemyGame_def allFlagsOff_def GameState_enter_session)

section \<open>Explosive rounds\<close>































section \<open>Collision passes\<close>

lemma enemyScan_last:
  assumes "i < length (bullets g)" and "j < n" and "n \<le> length (enemies g)"
      and "overlaps (bullets g ! i) (enemies g ! j)"
      and "\<forall>k. j < k \<and> k < n \<longrightarrow> \<not> overlaps (bullets g ! i) (enemies g ! k)"
  shows "enemyScan i n g = bulletHit i j g"
  using assms
proof (induction n)
  case 0
  then show ?case by simp
next
  case (Suc n)
  show ?case
  proof (cases "j = n")
    case True
    with Suc.prems show ?thesis by simp
  next
    case False
    with Suc.prems have jn: "j < n" by simp
    from Suc.prems jn have no: "\<not> overlaps (bullets g ! i) (enemies g ! n)" by simp
    have "enemyScan i n g = bulletHit i j g"
      using Suc.prems jn by (intro Suc.IH) simp_all
    with no show ?thesis by simp
  qed
qed

lemma enemyScan_miss:
  "\<forall>k<n. \<not> overlaps (bullets g ! i) (enemies g ! k) \<Longrightarrow> enemyScan i n g = g"
  by (induction n) simp_all

lemma takeDamage1_destroyed: "isDestroyed (takeDamage 1 e) = (currentHealth e \<le> 1)"
  by (auto simp: isDestroyed_def takeDamage_def Let_def)

text \<open>
  Claim C4, as the code has it. The inner loop runs over the enemies from the last index
  down and breaks at the first overlap it meets. So a bullet that overlaps some enemy
  (Explosive Rounds inactive) is consumed by the overlapping enemy with the greatest
  index \<open>j\<close>: the bullet is removed, that enemy takes 1 damage (and is removed, for 10
  points, if its health was 1 or less), and every other enemy stays as it is.
\<close>

theorem bullet_consumed_by_last_overlapping_enemy:
  assumes "i < length (bullets g)" and "\<not> explosiveRoundsActive (player g)"
      and "j < length (enemies g)"
      and "overlaps (bullets g ! i) (enemies g ! j)"
      and "\<forall>k. j < k \<and> k < length (enemies g) \<longrightarrow> \<not> overlaps (bullets g ! i) (enemies g ! k)"
  shows "(let g' = enemyScan i (length (enemies g)) g
          in bullets g' = splice1 i (bullets g) \<and>
             enemies g' =
               (if currentHealth (enemies g ! j) \<le> 1 then splice1 j (enemies g)
                else (enemies g)[j := takeDamage 1 (enemies g ! j)]) \<and>
             score g' = (if currentHealth (enemies g ! j) \<le> 1 then score g + 10 else score g))"
proof -
  have "enemyScan i (length (enemies g)) g = bulletHit i j g"
    using assms(1,3,4,5) by (intro enemyScan_last) simp_all
  then show ?thesis
    using assms(2) by (simp add: Let_def bulletHit_single takeDamage1_destroyed)
qed

lemma gameOver_frame:
  assumes "statesAsRegistered g"
  shows "lives (gameOver g) = lives g" "enemies (gameOver g) = enemies g"
        "player (gameOver g) = player g" "statesAsRegistered (gameOver g)"
  using assms
  by (auto simp: gameOver_def setState_def statesAsRegistered_def Map_get_def Let_def
      state_exit_frame state_exit_player split: option.splits)

lemma playerHit_char:
  assumes "statesAsRegistered g"
  shows "enemies (playerHit i g) =
           (if i < length (enemies g) \<and> overlaps (enemies g ! i) (playerBox (player g))
            then splice1 i (enemies g) else enemies g)"
    and "lives (playerHit i g) =
           (if i < length (enemies g) \<and> overlaps (enemies g ! i) (playerBox (player g)) \<and>
               \<not> (invincible (player g) \<and> shieldActive (player g))
            then lives g - 1 else lives g)"
    and "player (playerHit i g) = player g"
    and "statesAsRegistered (playerHit i g)"
proof -
  let ?g1 = "updateLives (- 1) (g\<lparr> enemies := splice1 i (enemies g) \<rparr>)"
  have r1: "statesAsRegistered ?g1" and r0: "statesAsRegistered (g\<lparr> enemies := splice1 i (enemies g) \<rparr>)"
    using assms by (simp_all add: statesAsRegistered_def updateLives_def)
  have f1: "lives ?g1 = lives g - 1" "enemies ?g1 = splice1 i (enemies g)" "player ?g1 = player g"
    by (simp_all add: updateLives_def)
  show "enemies (playerHit i g) =
           (if i < length (enemies g) \<and> overlaps (enemies g ! i) (playerBox (player g))
            then splice1 i (enemies g) else enemies g)"
    by (simp add: playerHit_def Let_def gameOver_frame [OF r1] f1)
  show "lives (playerHit i g) =
           (if i < length (enemies g) \<and> overlaps (enemies g ! i) (playerBox (player g)) \<and>
               \<not> (invincible (player g) \<and> shieldActive (player g))
            then lives g - 1 else lives g)"
    by (simp add: playerHit_def Let_def gameOver_frame [OF r1] f1)
  show "player (playerHit i g) = player g"
    by (simp add: playerHit_def Let_def gameOver_frame [OF r1] f1)
  show "statesAsRegistered (playerHit i g)"
    using assms r0 r1 by (simp add: playerHit_def Let_def gameOver_frame [OF r1])
qed

lemma playerLoop_char:
  assumes "statesAsRegistered g" and "n \<le> length (enemies g)"
  shows "enemies (playerLoop n g) =
           filter (\<lambda>e. \<not> overlaps e (playerBox (player g))) (take n (enemies g)) @ drop n (enemies g)
         \<and> lives (playerLoop n g) =
           (if invincible (player g) \<and> shieldActive (player g) then lives g
            else lives g - int (length (filter (\<lambda>e. overlaps e (playerBox (player g)))
                                          (take n (enemies g)))))
         \<and> player (playerLoop n g) = player g"
  using assms
proof (induction n arbitrary: g)
  case 0
  then show ?case by simp
next
  case (Suc n)
  let ?es = "enemies g"
  let ?g1 = "playerHit n g"
  let ?pb = "playerBox (player g)"
  from Suc.prems have lt: "n < length ?es" by simp
  note ch = playerHit_char [OF Suc.prems(1), of n]
  have tk: "take (Suc n) ?es = take n ?es @ [?es ! n]"
    using lt by (simp add: take_Suc_conv_app_nth)
  have len: "n \<le> length (enemies ?g1)"
    using lt by (auto simp: ch(1) splice1_def)
  have tk1: "take n (enemies ?g1) = take n ?es"
    using lt by (simp add: ch(1) splice1_def)
  have dr1: "drop n (enemies ?g1) =
      (if overlaps (?es ! n) ?pb then drop (Suc n) ?es else ?es ! n # drop (Suc n) ?es)"
    using lt by (simp add: ch(1) splice1_def Cons_nth_drop_Suc)
  have IH: "enemies (playerLoop n ?g1) =
           filter (\<lambda>e. \<not> overlaps e ?pb) (take n ?es) @ drop n (enemies ?g1)
         \<and> lives (playerLoop n ?g1) =
           (if invincible (player g) \<and> shieldActive (player g) then lives ?g1
            else lives ?g1 - int (length (filter (\<lambda>e. overlaps e ?pb) (take n ?es))))
         \<and> player (playerLoop n ?g1) = player g"
    using Suc.IH [OF ch(4) len] by (simp add: ch(3) tk1)
  show ?case
    using IH lt by (simp add: tk dr1 ch(2))
qed

lemma explosiveStep_lives:
  "lives (explosiveStep cx cy r i g) = lives g"
  "gameStateManager (explosiveStep cx cy r i g) = gameStateManager g"
  by (simp_all add: explosiveStep_def Let_def updateScore_def)

lemma explosiveLoop_lives:
  "lives (explosiveLoop cx cy r n g) = lives g"
  "gameStateManager (explosiveLoop cx cy r n g) = gameStateManager g"
  by (induction n arbitrary: g) (simp_all add: explosiveStep_lives)

lemma bulletHit_lives:
  "lives (bulletHit i j g) = lives g"
  "gameStateManager (bulletHit i j g) = gameStateManager g"
  by (simp_all add: bulletHit_def Let_def applyExplosiveDamage_def explosiveLoop_lives
      updateScore_def)

lemma enemyScan_lives:
  "lives (enemyScan i n g) = lives g"
  "gameStateManager (enemyScan i n g) = gameStateManager g"
  by (induction n) (simp_all add: bulletHit_lives)

lemma bulletLoop_lives:
  "lives (bulletLoop n g) = lives g"
  "gameStateManager (bulletLoop n g) = gameStateManager g"
  by (induction n arbitrary: g) (simp_all add: enemyScan_lives)

lemma bulletEnemyPass_frame:
  "lives (bulletEnemyPass g) = lives g"
  "player (bulletEnemyPass g) = player g"
  "statesAsRegistered (bulletEnemyPass g) = statesAsRegistered g"
  by (simp_all add: bulletEnemyPass_def bulletLoop_lives bulletLoop_frame statesAsRegistered_def)

lemma checkCollisions_char:
  assumes "statesAsRegistered g"
  shows "lives (checkCollisions g) =
           (if invincible (player g) \<and> shieldActive (player g) then lives g
            else lives g - int (length (filter (\<lambda>e. overlaps e (playerBox (player g)))
                                          (enemies (bulletEnemyPass g)))))"
    and "enemies (checkCollisions g) =
           filter (\<lambda>e. \<not> overlaps e (playerBox (player g))) (enemies (bulletEnemyPass g))"
proof -
  have reg: "statesAsRegistered (bulletEnemyPass g)"
    using assms by (simp add: bulletEnemyPass_frame)
  note pl = playerLoop_char [OF reg order_refl]
  show "lives (checkCollisions g) =
           (if invincible (player g) \<and> shieldActive (player g) then lives g
            else lives g - int (length (filter (\<lambda>e. overlaps e (playerBox (player g)))
                                          (enemies (bulletEnemyPass g)))))"
    using pl by (simp add: checkCollisions_def playerEnemyPass_def bulletEnemyPass_frame)
  show "enemies (checkCollisions g) =
           filter (\<lambda>e. \<not> overlaps e (playerBox (player g))) (enemies (bulletEnemyPass g))"
    using pl by (simp add: checkCollisions_def playerEnemyPass_def bulletEnemyPass_frame)
qed

lemma fresh_game_player: "player (GameState_enter (initializeGame c)) = initial_player"
  by (simp add: GameState_enter_def Let_def updateLives_def updateScore_def clearAllPowerUps_player
      player_reset_def initializeGame_table initializeGame_player Map_keys_def)
     (simp add: initial_player_def)

lemma fresh_game_registered: "statesAsRegistered (GameState_enter (initializeGame c))"
  by (simp add: statesAsRegistered_def GameState_enter_frame_env initializeGame_fields)

lemma initial_player_box:
  "playerBox initial_player = \<lparr> pos_x = 385, pos_y = 550, width = 30, height = 30 \<rparr>"
  by (simp add: playerBox_def initial_player_def CANVAS_WIDTH_def CANVAS_HEIGHT_def)

lemma overlapGame_fields:
  "bullets overlapGame = [Bullet_new 113 110 0 (- BULLET_SPEED)]"
  "enemies overlapGame = [enemyAt 100 100 3, enemyAt 105 100 3, enemyAt 300 100 3]"
  "player overlapGame = initial_player"
  "statesAsRegistered overlapGame"
  "score overlapGame = 0"
  using fresh_game_registered [of standardCanvas]
  by (simp_all add: overlapGame_def fresh_game_player statesAsRegistered_def GameState_enter_session)

lemma overlapGame_overlaps:
  "overlaps (bullets overlapGame ! 0) (enemies overlapGame ! 0)"
  "overlaps (bullets overlapGame ! 0) (enemies overlapGame ! 1)"
  "\<not> overlaps (bullets overlapGame ! 0) (enemies overlapGame ! 2)"
  by (simp_all add: overlapGame_fields overlaps_def Bullet_new_def enemyAt_def fl_numeral)

lemma overlapGame_last:
  "\<forall>k. 1 < k \<and> k < length (enemies overlapGame) \<longrightarrow>
       \<not> overlaps (bullets overlapGame ! 0) (enemies overlapGame ! k)"
proof (intro allI impI)
  fix k :: nat
  assume "1 < k \<and> k < length (enemies overlapGame)"
  then have "k = 2" by (simp add: overlapGame_fields)
  then show "\<not> overlaps (bullets overlapGame ! 0) (enemies overlapGame ! k)"
    by (simp add: overlapGame_overlaps)
qed

lemma overlapGame_not_explosive: "\<not> explosiveRoundsActive (player overlapGame)"
  by (simp add: overlapGame_fields initial_player_def)

theorem bullet_consumed_by_last_overlapping_enemy_witness:
  "0 < length (bullets overlapGame) \<and> \<not> explosiveRoundsActive (player overlapGame) \<and>
   1 < length (enemies overlapGame) \<and>
   overlaps (bullets overlapGame ! 0) (enemies overlapGame ! 1) \<and>
   length (enemies overlapGame) = 3 \<and>
   \<not> overlaps (bullets overlapGame ! 0) (enemies overlapGame ! 2) \<and>
   bullets (enemyScan 0 (length (enemies overlapGame)) overlapGame) = [] \<and>
   map currentHealth (enemies (enemyScan 0 (length (enemies overlapGame)) overlapGame)) = [3, 2, 3] \<and>
   score (enemyScan 0 (length (enemies overlapGame)) overlapGame) = 0"
proof -
  have b: "0 < length (bullets overlapGame)" and e: "1 < length (enemies overlapGame)"
    by (simp_all add: overlapGame_fields)
  have res: "bullets (enemyScan 0 (length (enemies overlapGame)) overlapGame) = [] \<and>
     map currentHealth (enemies (enemyScan 0 (length (enemies overlapGame)) overlapGame)) = [3, 2, 3] \<and>
     score (enemyScan 0 (length (enemies overlapGame)) overlapGame) = 0"
    using bullet_consumed_by_last_overlapping_enemy [OF b overlapGame_not_explosive e
        overlapGame_overlaps(2) overlapGame_last]
    by (simp add: Let_def overlapGame_fields splice1_def enemyAt_def takeDamage_def)
  show ?thesis
    using b e overlapGame_not_explosive overlapGame_overlaps res
    by (simp add: overlapGame_fields(2))
qed

text \<open>
  The claim as stated fails: the bullet overlaps the enemies at indices 0 and 1, and the
  pass damages the one at index 1 and leaves the first in storage order untouched.
\<close>

theorem first_overlapping_enemy_counterexample:
  "\<not> explosiveRoundsActive (player overlapGame) \<and>
   overlaps (bullets overlapGame ! 0) (enemies overlapGame ! 0) \<and>
   overlaps (bullets overlapGame ! 0) (enemies overlapGame ! 1) \<and>
   map currentHealth (enemies overlapGame) = [3, 3, 3] \<and>
   map currentHealth (enemies (checkCollisions overlapGame)) = [3, 2, 3]"
proof -
  have scan: "enemyScan 0 (length (enemies overlapGame)) overlapGame = bulletHit 0 1 overlapGame"
    using overlapGame_overlaps(2) overlapGame_last
    by (intro enemyScan_last) (simp_all add: overlapGame_fields)
  have pass: "enemies (bulletEnemyPass overlapGame) =
      [enemyAt 100 100 3, takeDamage 1 (enemyAt 105 100 3), enemyAt 300 100 3]"
    using scan overlapGame_not_explosive
    by (simp add: bulletEnemyPass_def overlapGame_fields(1) bulletHit_single takeDamage1_destroyed)
       (simp add: overlapGame_fields enemyAt_def)
  have "enemies (checkCollisions overlapGame) =
      [enemyAt 100 100 3, takeDamage 1 (enemyAt 105 100 3), enemyAt 300 100 3]"
    by (simp add: checkCollisions_char(2) [OF overlapGame_fields(4)] pass overlapGame_fields(3)
        initial_player_box overlaps_def enemyAt_def takeDamage_def fl_numeral)
  then show ?thesis
    using overlapGame_not_explosive overlapGame_overlaps
    by (simp add: overlapGame_fields) (simp add: enemyAt_def takeDamage_def)
qed

lemma fourHitGame_fields:
  "bullets fourHitGame = []"
  "enemies fourHitGame =
     [enemyAt 360 521 2, enemyAt 375 522 3, enemyAt 390 521 4, enemyAt 405 522 2]"
  "player fourHitGame = initial_player"
  "statesAsRegistered fourHitGame"
  "lives fourHitGame = 3"
  using fresh_game_registered [of standardCanvas]
  by (simp_all add: fourHitGame_def fresh_game_player statesAsRegistered_def GameState_enter_session)

text \<open>
  The claim as stated fails: with 3 lives and four enemies on the player in one frame
  the pass ends with \<open>lives = -1\<close>.
\<close>

theorem lives_negative_counterexample:
  "lives fourHitGame = 3 \<and> \<not> (invincible (player fourHitGame) \<and> shieldActive (player fourHitGame)) \<and>
   length (filter (\<lambda>e. overlaps e (playerBox (player fourHitGame))) (enemies fourHitGame)) = 4 \<and>
   lives (checkCollisions fourHitGame) = - 1 \<and>
   \<not> 0 \<le> lives (checkCollisions fourHitGame)"
proof -
  have pass: "bulletEnemyPass fourHitGame = fourHitGame"
    by (simp add: bulletEnemyPass_def fourHitGame_fields)
  have cnt: "length (filter (\<lambda>e. overlaps e (playerBox (player fourHitGame))) (enemies fourHitGame)) = 4"
    by (simp add: fourHitGame_fields initial_player_box overlaps_def enemyAt_def fl_numeral)
  have sh: "\<not> (invincible (player fourHitGame) \<and> shieldActive (player fourHitGame))"
    by (simp add: fourHitGame_fields initial_player_def)
  have "lives (checkCollisions fourHitGame) = - 1"
    using sh by (simp add: checkCollisions_char(1) [OF fourHitGame_fields(4)] pass cnt fourHitGame_fields(5))
  then show ?thesis using cnt sh by (simp add: fourHitGame_fields)
qed

section \<open>The session as a whole\<close>

text \<open>The invariant holds after start-up and is kept by every operation.\<close>

lemma inBoundsOnGrid_geometry:
  "geometry p' = geometry p \<Longrightarrow> inBoundsOnGrid c p' = inBoundsOnGrid c p"
  by (simp add: geometry_def inBoundsOnGrid_def)

lemma sessionInv_cong:
  assumes "canvas g' = canvas g" and "gameStateManager g' = gameStateManager g"
      and "geometry (player g') = geometry (player g)"
  shows "sessionInv g' = sessionInv g"
proof -
  have "inBoundsOnGrid standardCanvas (player g') = inBoundsOnGrid standardCanvas (player g)"
    using assms(3) by (rule inBoundsOnGrid_geometry)
  moreover have "width (player g') = width (player g)" "height (player g') = height (player g)"
    "pspeed (player g') = pspeed (player g)"
    using assms(3) by (simp_all add: geometry_def)
  ultimately show ?thesis
    using assms(1,2) by (simp add: sessionInv_def statesAsRegistered_def)
qed

lemma applyPowerUpEffect_geometry:
  "geometry (player (applyPowerUpEffect t a g)) = geometry (player g)"
  by (simp add: geometry_def applyPowerUpEffect_player)

lemma sessionInv_applyPowerUpEffect: "sessionInv (applyPowerUpEffect t a g) = sessionInv g"
  by (rule sessionInv_cong) (simp_all add: applyPowerUpEffect_frame_env applyPowerUpEffect_geometry)

lemma sessionInv_table: "sessionInv (g\<lparr> activePowerUps := tbl \<rparr>) = sessionInv g"
  by (rule sessionInv_cong) simp_all

lemma sessionInv_addPowerUp: "sessionInv (snd (addPowerUp t now g)) = sessionInv g"
  by (simp add: addPowerUp_def Let_def sessionInv_applyPowerUpEffect sessionInv_table
      split: option.splits)

lemma sessionInv_removePowerUp: "sessionInv (snd (removePowerUp t g)) = sessionInv g"
  by (simp add: removePowerUp_def Let_def sessionInv_applyPowerUpEffect sessionInv_table)

lemma sessionInv_updatePowerUps: "sessionInv (PowerUpManager_updatePowerUps now g) = sessionInv g"
proof -
  have "\<And>ts h. sessionInv (foldl (\<lambda>h t. snd (removePowerUp t h)) h ts) = sessionInv h"
  proof -
    fix ts :: "string list" and h
    show "sessionInv (foldl (\<lambda>h t. snd (removePowerUp t h)) h ts) = sessionInv h"
      by (induction ts arbitrary: h) (simp_all add: sessionInv_removePowerUp)
  qed
  then show ?thesis by (simp add: PowerUpManager_updatePowerUps_def Let_def)
qed

lemma disable_fold_geometry:
  "geometry (player (foldl (\<lambda>h t. applyPowerUpEffect t False h) g ts)) = geometry (player g)"
  by (induction ts arbitrary: g) (simp_all add: applyPowerUpEffect_geometry)

lemma sessionInv_clearAllPowerUps: "sessionInv (clearAllPowerUps g) = sessionInv g"
  by (rule sessionInv_cong)
    (simp_all add: clearAllPowerUps_frame_env clearAllPowerUps_player disable_fold_geometry)

lemma sessionInv_player_reset: "sessionInv g \<Longrightarrow> sessionInv (player_reset g)"
  by (simp add: sessionInv_def player_reset_def statesAsRegistered_def inBoundsOnGrid_def
      standardCanvas_def CANVAS_WIDTH_def CANVAS_HEIGHT_def PLAYER_SPEED_def)

lemma sessionInv_GameState_enter: "sessionInv g \<Longrightarrow> sessionInv (GameState_enter g)"
proof -
  assume inv: "sessionInv g"
  let ?g1 = "g\<lparr> gameRunning := True, score := 0, lives := 3, bullets := [], enemies := [],
                lastEnemySpawn := 0, enemySpawnRate := INITIAL_ENEMY_SPAWN_RATE \<rparr>"
  have "sessionInv ?g1 = sessionInv g" by (rule sessionInv_cong) simp_all
  with inv have "sessionInv (player_reset ?g1)" by (simp add: sessionInv_player_reset)
  moreover have "\<And>h. sessionInv (updateLives 0 (updateScore 0 h)) = sessionInv h"
    by (rule sessionInv_cong) (simp_all add: updateLives_def updateScore_def)
  ultimately show ?thesis
    by (simp add: GameState_enter_def Let_def sessionInv_clearAllPowerUps)
qed

lemma sessionInv_running: "sessionInv (g\<lparr> gameRunning := b \<rparr>) = sessionInv g"
  by (rule sessionInv_cong) simp_all

lemma sessionInv_state_enter: "sessionInv g \<Longrightarrow> sessionInv (state_enter c g)"
  by (cases c) (simp_all add: sessionInv_GameState_enter sessionInv_running)

lemma sessionInv_state_exit: "sessionInv g \<Longrightarrow> sessionInv (state_exit c g)"
  by (cases c) (simp_all add: sessionInv_running)

lemma sessionInv_current:
  "gameStateManager g = Some m \<Longrightarrow>
   sessionInv (g\<lparr> gameStateManager := Some (m\<lparr> currentState := c \<rparr>) \<rparr>) = sessionInv g"
  by (simp add: sessionInv_def statesAsRegistered_def)

lemma sessionInv_setState: "sessionInv g \<Longrightarrow> sessionInv (snd (setState n g))"
proof -
  assume inv: "sessionInv g"
  show ?thesis
  proof (cases "gameStateManager g")
    case None
    then show ?thesis using inv by (simp add: setState_def)
  next
    case (Some m)
    show ?thesis
    proof (cases "n = [] \<or> Map_get (states m) n = None")
      case True
      then show ?thesis using inv Some by (auto simp: setState_def)
    next
      case False
      then obtain c where c: "Map_get (states m) n = Some c" and n: "n \<noteq> []" by auto
      let ?g1 = "case currentState m of Some cur \<Rightarrow> state_exit cur g | None \<Rightarrow> g"
      have i1: "sessionInv ?g1"
        using inv by (simp add: sessionInv_state_exit split: option.splits)
      have m1: "gameStateManager ?g1 = Some m"
        using Some by (simp add: state_exit_frame split: option.splits)
      have "sessionInv (?g1\<lparr> gameStateManager := Some (m\<lparr> currentState := Some c \<rparr>) \<rparr>)"
        using i1 by (simp add: sessionInv_current [OF m1])
      then have "sessionInv (state_enter c (?g1\<lparr> gameStateManager := Some (m\<lparr> currentState := Some c \<rparr>) \<rparr>))"
        by (rule sessionInv_state_enter)
      then show ?thesis
        using Some c n by (simp add: setState_def Let_def)
    qed
  qed
qed

lemma sessionInv_gameOver: "sessionInv g \<Longrightarrow> sessionInv (gameOver g)"
  by (simp add: gameOver_def sessionInv_setState sessionInv_running split: option.splits)

lemma sessionInv_keys: "sessionInv (g\<lparr> keys := k \<rparr>) = sessionInv g"
  by (rule sessionInv_cong) simp_all

lemma shootBullet_env:
  "canvas (shootBullet now g) = canvas g"
  by (simp add: shootBullet_def createBullets_def Let_def split: bulletPattern.splits)

lemma sessionInv_shootBullet: "sessionInv (shootBullet now g) = sessionInv g"
  by (rule sessionInv_cong) (simp_all add: shootBullet_env shootBullet_frame shootBullet_player)

lemma sessionInv_movePlayer: "sessionInv g \<Longrightarrow> sessionInv (movePlayer standardCanvas g)"
proof -
  assume inv: "sessionInv g"
  then have "inBoundsOnGrid standardCanvas (player (movePlayer standardCanvas g))"
    by (simp add: sessionInv_def inBoundsOnGrid_movePlayer)
  moreover have "canvas (movePlayer standardCanvas g) = canvas g"
    by (simp add: movePlayer_def Let_def)
  ultimately show ?thesis
    using inv by (simp add: sessionInv_def movePlayer_fields movePlayer_frame statesAsRegistered_def)
qed

lemma sessionInv_GameState_handleInput:
  "sessionInv g \<Longrightarrow> sessionInv (GameState_handleInput now g)"
proof -
  assume inv: "sessionInv g"
  then have c: "canvas g = Some standardCanvas" by (simp add: sessionInv_def)
  have m: "sessionInv (movePlayer standardCanvas g)" using inv by (rule sessionInv_movePlayer)
  show ?thesis
    using m
    by (simp add: GameState_handleInput_def c Let_def sessionInv_keys sessionInv_shootBullet
        sessionInv_setState split: option.splits)
qed

lemma sessionInv_spawnEnemy: "sessionInv (spawnEnemy now rnd g) = sessionInv g"
  by (rule sessionInv_cong) (simp_all add: spawnEnemy_def Let_def)

lemma explosiveStep_canvas: "canvas (explosiveStep cx cy r i g) = canvas g"
  by (simp add: explosiveStep_def Let_def updateScore_def)

lemma explosiveLoop_canvas: "canvas (explosiveLoop cx cy r n g) = canvas g"
  by (induction n arbitrary: g) (simp_all add: explosiveStep_canvas)

lemma bulletHit_canvas: "canvas (bulletHit i j g) = canvas g"
  by (simp add: bulletHit_def Let_def applyExplosiveDamage_def explosiveLoop_canvas updateScore_def)

lemma enemyScan_canvas: "canvas (enemyScan i n g) = canvas g"
  by (induction n) (simp_all add: bulletHit_canvas)

lemma bulletLoop_canvas: "canvas (bulletLoop n g) = canvas g"
  by (induction n arbitrary: g) (simp_all add: enemyScan_canvas)

lemma sessionInv_bulletEnemyPass: "sessionInv (bulletEnemyPass g) = sessionInv g"
  by (rule sessionInv_cong)
    (simp_all add: bulletEnemyPass_def bulletLoop_canvas bulletLoop_lives bulletLoop_frame)

lemma sessionInv_playerHit: "sessionInv g \<Longrightarrow> sessionInv (playerHit i g)"
proof -
  assume inv: "sessionInv g"
  have a: "\<And>es. sessionInv (g\<lparr> enemies := es \<rparr>)"
    using inv sessionInv_cong [of "g\<lparr> enemies := es \<rparr>" g for es] by simp
  have b: "\<And>es. sessionInv (updateLives (- 1) (g\<lparr> enemies := es \<rparr>))"
    using inv sessionInv_cong [of "updateLives (- 1) (g\<lparr> enemies := es \<rparr>)" g for es]
    by (simp add: updateLives_def)
  show ?thesis
    using inv a b by (simp add: playerHit_def Let_def sessionInv_gameOver)
qed

lemma sessionInv_playerLoop: "sessionInv g \<Longrightarrow> sessionInv (playerLoop n g)"
  by (induction n arbitrary: g) (simp_all add: sessionInv_playerHit)

lemma sessionInv_checkCollisions: "sessionInv g \<Longrightarrow> sessionInv (checkCollisions g)"
  by (simp add: checkCollisions_def playerEnemyPass_def sessionInv_playerLoop
      sessionInv_bulletEnemyPass)

lemma sessionInv_applyOp: "sessionInv g \<Longrightarrow> sessionInv (applyOp x g)"
  by (cases x)
    (simp_all add: sessionInv_addPowerUp sessionInv_removePowerUp sessionInv_updatePowerUps
      sessionInv_clearAllPowerUps sessionInv_player_reset sessionInv_setState
      sessionInv_GameState_handleInput sessionInv_keys sessionInv_spawnEnemy
      sessionInv_checkCollisions)

lemma sessionInv_runOps: "sessionInv g \<Longrightarrow> sessionInv (runOps xs g)"
  by (induction xs arbitrary: g) (simp_all add: sessionInv_applyOp)

lemma sessionInv_initializeGame: "sessionInv (initializeGame standardCanvas)"
  by (simp add: sessionInv_def initializeGame_fields initializeGame_player statesAsRegistered_def
      inBoundsOnGrid_def standardCanvas_def initial_player_def CANVAS_WIDTH_def CANVAS_HEIGHT_def
      PLAYER_SPEED_def)

lemma reachable_sessionInv: "sessionInv (runOps history (initializeGame standardCanvas))"
  by (rule sessionInv_runOps) (rule sessionInv_initializeGame)

text \<open>Every operation but the collision pass keeps \<open>lives\<close> or sets it to 3.\<close>

lemma lives_addPowerUp: "lives (snd (addPowerUp t now g)) = lives g"
  by (simp add: addPowerUp_def Let_def applyPowerUpEffect_frame split: option.splits)

lemma lives_removePowerUp: "lives (snd (removePowerUp t g)) = lives g"
  by (simp add: removePowerUp_def Let_def applyPowerUpEffect_frame)

lemma lives_updatePowerUps: "lives (PowerUpManager_updatePowerUps now g) = lives g"
proof -
  have "\<And>ts h. lives (foldl (\<lambda>h t. snd (removePowerUp t h)) h ts) = lives h"
  proof -
    fix ts :: "string list" and h
    show "lives (foldl (\<lambda>h t. snd (removePowerUp t h)) h ts) = lives h"
      by (induction ts arbitrary: h) (simp_all add: lives_removePowerUp)
  qed
  then show ?thesis by (simp add: PowerUpManager_updatePowerUps_def Let_def)
qed

lemma lives_state_enter: "lives (state_enter c g) = lives g \<or> lives (state_enter c g) = 3"
  by (cases c) (simp_all add: GameState_enter_session)

lemma lives_setState: "lives (snd (setState n g)) = lives g \<or> lives (snd (setState n g)) = 3"
proof (cases "gameStateManager g")
  case None
  then show ?thesis by (simp add: setState_def)
next
  case (Some m)
  show ?thesis
  proof (cases "n = [] \<or> Map_get (states m) n = None")
    case True
    then show ?thesis using Some by (auto simp: setState_def)
  next
    case False
    then obtain c where c: "Map_get (states m) n = Some c" and n: "n \<noteq> []" by auto
    let ?g1 = "case currentState m of Some cur \<Rightarrow> state_exit cur g | None \<Rightarrow> g"
    let ?g2 = "?g1\<lparr> gameStateManager := Some (m\<lparr> currentState := Some c \<rparr>) \<rparr>"
    have "lives ?g2 = lives g" by (simp add: state_exit_frame split: option.splits)
    moreover have "lives (state_enter c ?g2) = lives ?g2 \<or> lives (state_enter c ?g2) = 3"
      by (rule lives_state_enter)
    moreover have "snd (setState n g) = state_enter c ?g2"
      using Some c n by (simp add: setState_def Let_def)
    ultimately show ?thesis by simp
  qed
qed

lemma lives_shootBullet: "lives (shootBullet now g) = lives g"
  by (simp add: shootBullet_def createBullets_def Let_def split: bulletPattern.splits)

lemma lives_GameState_handleInput:
  "lives (GameState_handleInput now g) = lives g \<or> lives (GameState_handleInput now g) = 3"
proof (cases "canvas g")
  case None
  then show ?thesis by (simp add: GameState_handleInput_def)
next
  case (Some c)
  let ?g1 = "movePlayer c g"
  let ?g2 = "if keys ?g1 ''Space''
             then (shootBullet now ?g1)\<lparr> keys := (keys ?g1)(''Space'' := False) \<rparr> else ?g1"
  let ?g3 = "?g2\<lparr> keys := (keys ?g2)(''Escape'' := False) \<rparr>"
  have l2: "lives ?g2 = lives g" by (simp add: movePlayer_def Let_def lives_shootBullet)
  have l3: "lives ?g3 = lives g" using l2 by simp
  have "lives (snd (setState ''PauseState'' ?g3)) = lives ?g3 \<or>
        lives (snd (setState ''PauseState'' ?g3)) = 3"
    by (rule lives_setState)
  then have "lives (snd (setState ''PauseState'' ?g3)) = lives g \<or>
        lives (snd (setState ''PauseState'' ?g3)) = 3"
    using l3 by simp
  moreover have "GameState_handleInput now g =
      (if keys ?g2 ''Escape''
       then (case gameStateManager ?g3 of Some m \<Rightarrow> snd (setState ''PauseState'' ?g3) | None \<Rightarrow> ?g3)
       else ?g2)"
    using Some by (simp add: GameState_handleInput_def Let_def)
  ultimately show ?thesis
    using l2 l3 by (auto split: option.splits)
qed

lemma lives_applyOp:
  "x \<noteq> Collide \<Longrightarrow> lives (applyOp x g) = lives g \<or> lives (applyOp x g) = 3"
proof (cases x)
  case (SetState n)
  then show ?thesis using lives_setState [of n g] by simp
next
  case (Input now held)
  then show ?thesis using lives_GameState_handleInput [of now "g\<lparr> keys := held \<rparr>"] by simp
qed (simp_all add: lives_addPowerUp lives_removePowerUp lives_updatePowerUps clearAllPowerUps_frame
      player_reset_def spawnEnemy_def Let_def)

text \<open>
  Claim C1, as the code has it. In every state the session can reach from start-up the
  five states are registered under their own names, and in every such state the
  following holds. Entering the Game state sets \<open>lives\<close> to 3, and every operation
  other than the collision pass leaves \<open>lives\<close> as it is or sets it to 3. The
  bullet-enemy pass leaves \<open>lives\<close> alone; the player-enemy pass leaves it alone under
  the shield and otherwise lowers it by exactly the number of enemies that overlap the
  player, going on after \<open>gameOver()\<close> has been called. So \<open>lives\<close> stays non-negative
  exactly as long as no more enemies hit the unshielded player in one frame than lives
  are left.
\<close>

theorem collision_pass_lowers_lives_by_hits:
  assumes "statesAsRegistered g"
  shows "statesAsRegistered (runOps history (initializeGame standardCanvas)) \<and>
         lives (GameState_enter g0) = 3 \<and>
         (x \<noteq> Collide \<longrightarrow> lives (applyOp x g) = lives g \<or> lives (applyOp x g) = 3) \<and>
         lives (bulletEnemyPass g) = lives g \<and>
         lives (checkCollisions g) =
           (if invincible (player g) \<and> shieldActive (player g) then lives g
            else lives g - int (length (filter (\<lambda>e. overlaps e (playerBox (player g)))
                                          (enemies (bulletEnemyPass g)))))"
proof -
  have "statesAsRegistered (runOps history (initializeGame standardCanvas))"
    using reachable_sessionInv [of history] by (simp add: sessionInv_def)
  then show ?thesis
    using checkCollisions_char(1) [OF assms] lives_applyOp [of x g]
    by (simp add: GameState_enter_session bulletEnemyPass_frame)
qed

theorem collision_pass_lowers_lives_by_hits_witness:
  "statesAsRegistered (oneEnemyGame (enemyAt 380 530 3)) \<and>
   lives (oneEnemyGame (enemyAt 380 530 3)) = 3 \<and>
   lives (checkCollisions (oneEnemyGame (enemyAt 380 530 3))) = 2"
proof -
  let ?g = "oneEnemyGame (enemyAt 380 530 3)"
  have reg: "statesAsRegistered ?g"
    using fresh_game_registered [of standardCanvas]
    by (simp add: oneEnemyGame_def statesAsRegistered_def)
  have f: "player ?g = initial_player" "lives ?g = 3" "enemies ?g = [enemyAt 380 530 3]"
      "bullets ?g = [Bullet_new 100 0 0 (- BULLET_SPEED)]"
    by (simp_all add: oneEnemyGame_def fresh_game_player GameState_enter_session)
  have miss: "enemyScan 0 (length (enemies ?g)) ?g = ?g"
    by (rule enemyScan_miss, simp add: f) (simp add: overlaps_def Bullet_new_def enemyAt_def fl_numeral)
  have pass: "bulletEnemyPass ?g = ?g"
    using miss by (simp add: bulletEnemyPass_def f(4))
  show ?thesis
    using collision_pass_lowers_lives_by_hits [OF reg] reg
    by (simp add: pass f initial_player_box)
       (simp add: overlaps_def enemyAt_def initial_player_def fl_numeral)
qed




section \<open>Removal of enemies\<close>

lemma state_exit_score: "score (state_exit c g) = score g"
  by (cases c) simp_all

lemma gameOver_score:
  assumes "statesAsRegistered g"
  shows "score (gameOver g) = score g"
  using assms
  by (auto simp: gameOver_def setState_def statesAsRegistered_def Map_get_def Let_def
      state_exit_score split: option.splits)

lemma playerHit_score:
  assumes "statesAsRegistered g"
  shows "score (playerHit i g) = score g"
proof -
  let ?g1 = "updateLives (- 1) (g\<lparr> enemies := splice1 i (enemies g) \<rparr>)"
  have r1: "statesAsRegistered ?g1"
    using assms by (simp add: statesAsRegistered_def updateLives_def)
  have "score ?g1 = score g" by (simp add: updateLives_def)
  then show ?thesis by (simp add: playerHit_def Let_def gameOver_score [OF r1])
qed

lemma playerLoop_score:
  "statesAsRegistered g \<Longrightarrow> score (playerLoop n g) = score g"
proof (induction n arbitrary: g)
  case 0
  show ?case by simp
next
  case (Suc n)
  have "score (playerLoop n (playerHit n g)) = score (playerHit n g)"
    by (rule Suc.IH) (rule playerHit_char(4) [OF Suc.prems])
  then show ?case by (simp add: playerHit_score [OF Suc.prems])
qed

lemma playerEnemyPass_char:
  assumes "statesAsRegistered g"
  shows "enemies (playerEnemyPass g) =
           filter (\<lambda>e. \<not> overlaps e (playerBox (player g))) (enemies g)"
    and "score (playerEnemyPass g) = score g"
  using playerLoop_char [OF assms order_refl] playerLoop_score [OF assms]
  by (simp_all add: playerEnemyPass_def)

lemma enemyUpdateStep_frame:
  "enemyUpdateStep h i g = g\<lparr> enemies := enemies (enemyUpdateStep h i g) \<rparr>"
  by (simp add: enemyUpdateStep_def Let_def)

lemma enemyUpdateStep_enemies:
  "i < length (enemies g) \<Longrightarrow>
   enemies (enemyUpdateStep h i g) =
     (let e' = updateHealthBarVisibility (Enemy_update (timeSlowMultiplier g) (enemies g ! i))
      in if pos_y e' > real_of_int h then splice1 i (enemies g) else (enemies g)[i := e'])"
  by (simp add: enemyUpdateStep_def Let_def)

lemma enemyUpdateLoop_frame:
  "enemyUpdateLoop h n g = g\<lparr> enemies := enemies (enemyUpdateLoop h n g) \<rparr>"
proof (induction n arbitrary: g)
  case 0
  show ?case by simp
next
  case (Suc n)
  let ?g1 = "enemyUpdateStep h n g"
  have "enemyUpdateLoop h n ?g1 = ?g1\<lparr> enemies := enemies (enemyUpdateLoop h n ?g1) \<rparr>"
    by (rule Suc.IH)
  also have "\<dots> = g\<lparr> enemies := enemies (enemyUpdateLoop h n ?g1) \<rparr>"
    by (subst enemyUpdateStep_frame) simp
  finally show ?case by simp
qed

lemma enemyUpdateLoop_enemies:
  "n \<le> length (enemies g) \<Longrightarrow>
   enemies (enemyUpdateLoop h n g) =
     filter (\<lambda>e. \<not> pos_y e > real_of_int h)
       (map (\<lambda>e. updateHealthBarVisibility (Enemy_update (timeSlowMultiplier g) e))
          (take n (enemies g))) @ drop n (enemies g)"
proof (induction n arbitrary: g)
  case 0
  show ?case by simp
next
  case (Suc n)
  let ?es = "enemies g"
  let ?g1 = "enemyUpdateStep h n g"
  let ?f = "\<lambda>e. updateHealthBarVisibility (Enemy_update (timeSlowMultiplier g) e)"
  from Suc.prems have lt: "n < length ?es" by simp
  have tk: "take (Suc n) ?es = take n ?es @ [?es ! n]"
    using lt by (simp add: take_Suc_conv_app_nth)
  have m1: "timeSlowMultiplier ?g1 = timeSlowMultiplier g"
    by (subst enemyUpdateStep_frame) simp
  have es1: "enemies ?g1 =
      (if pos_y (?f (?es ! n)) > real_of_int h then take n ?es @ drop (Suc n) ?es
       else ?es[n := ?f (?es ! n)])"
    using lt by (simp add: enemyUpdateStep_enemies Let_def splice1_def)
  have len: "n \<le> length (enemies ?g1)" using lt by (auto simp: es1)
  have tk1: "take n (enemies ?g1) = take n ?es" using lt by (auto simp: es1)
  have dr1: "drop n (enemies ?g1) =
      (if pos_y (?f (?es ! n)) > real_of_int h then drop (Suc n) ?es
       else ?f (?es ! n) # drop (Suc n) ?es)"
    using lt by (simp add: es1 Cons_nth_drop_Suc [symmetric] upd_conv_take_nth_drop)
  have "enemies (enemyUpdateLoop h n ?g1) =
      filter (\<lambda>e. \<not> pos_y e > real_of_int h) (map ?f (take n ?es)) @ drop n (enemies ?g1)"
    using Suc.IH [OF len] by (simp add: m1 tk1)
  then show ?case by (simp add: tk dr1)
qed

lemma updateEnemies_char:
  "enemies (updateEnemies g) =
     filter (\<lambda>e. \<not> pos_y e >
                 real_of_int (case canvas g of Some c \<Rightarrow> canvas_height c | None \<Rightarrow> CANVAS_HEIGHT))
       (map (\<lambda>e. updateHealthBarVisibility (Enemy_update (timeSlowMultiplier g) e)) (enemies g))"
  "score (updateEnemies g) = score g"
  "updateEnemies g = g\<lparr> enemies := enemies (updateEnemies g) \<rparr>"
proof -
  show "enemies (updateEnemies g) =
     filter (\<lambda>e. \<not> pos_y e >
                 real_of_int (case canvas g of Some c \<Rightarrow> canvas_height c | None \<Rightarrow> CANVAS_HEIGHT))
       (map (\<lambda>e. updateHealthBarVisibility (Enemy_update (timeSlowMultiplier g) e)) (enemies g))"
    by (simp add: updateEnemies_def Let_def enemyUpdateLoop_enemies)
  show f: "updateEnemies g = g\<lparr> enemies := enemies (updateEnemies g) \<rparr>"
    unfolding updateEnemies_def Let_def by (rule enemyUpdateLoop_frame)
  show "score (updateEnemies g) = score g"
    by (subst f) simp
qed

text \<open>
  Claim C8, as the code has it. An enemy is constructed with \<open>maxHealth\<close> 2, 3 or 4 (for
  a random double \<open>0 \<le> r3 < 1\<close>). After any events of which \<open>n\<close> are hits of 1 damage,
  its \<open>currentHealth\<close> is \<open>max(0, maxHealth - n)\<close>, and \<open>isDestroyed\<close> holds exactly when
  that is 0. When a bullet then hits it (Explosive Rounds inactive), the collision pass
  removes it from \<open>enemies\<close> and adds 10 to the score if the health after this hit is 0,
  and otherwise keeps it, with the hit applied, and leaves the score. Enemies also leave
  \<open>enemies\<close> with health left and for no score: the player-enemy pass removes exactly
  those that overlap the player, and \<open>updateEnemies\<close> exactly those that have moved
  below the bottom edge of the canvas.
\<close>

theorem enemy_health_after_hits_and_removal:
  assumes "isDouble r3" and "0 \<le> r3" and "r3 < 1" and "statesAsRegistered g"
  shows "(let e = Enemy_new cv r1 r2 r3; n = hitCount evs
          in 2 \<le> maxHealth e \<and> maxHealth e \<le> 4 \<and>
             currentHealth (enemyLife evs e) = max 0 (maxHealth e - int n) \<and>
             isDestroyed (enemyLife evs e) = (max 0 (maxHealth e - int n) = 0) \<and>
             (\<not> explosiveRoundsActive (player g) \<and> j < length (enemies g) \<and>
              enemies g ! j = enemyLife evs e \<longrightarrow>
                enemies (bulletHit i j g) =
                  (if max 0 (maxHealth e - int (Suc n)) = 0 then splice1 j (enemies g)
                   else (enemies g)[j := enemyLife (evs @ [Hit]) e]) \<and>
                score (bulletHit i j g) =
                  (if max 0 (maxHealth e - int (Suc n)) = 0 then score g + 10 else score g))) \<and>
         enemies (playerEnemyPass g) =
           filter (\<lambda>e. \<not> overlaps e (playerBox (player g))) (enemies g) \<and>
         score (playerEnemyPass g) = score g \<and>
         enemies (updateEnemies g) =
           filter (\<lambda>e. \<not> pos_y e >
                       real_of_int (case canvas g of Some c \<Rightarrow> canvas_height c
                                    | None \<Rightarrow> CANVAS_HEIGHT))
             (map (\<lambda>e. updateHealthBarVisibility (Enemy_update (timeSlowMultiplier g) e))
                (enemies g)) \<and>
         score (updateEnemies g) = score g"
proof -
  let ?e = "Enemy_new cv r1 r2 r3"
  from assms have mh: "2 \<le> maxHealth ?e" "maxHealth ?e \<le> 4" "currentHealth ?e = maxHealth ?e"
    using Enemy_new_health [of r3 cv r1 r2] by simp_all
  have cur: "\<And>es. currentHealth (enemyLife es ?e) = max 0 (maxHealth ?e - int (hitCount es))"
    using mh by (simp add: enemyLife_health)
  have dead: "\<And>es. isDestroyed (enemyLife es ?e) = (max 0 (maxHealth ?e - int (hitCount es)) = 0)"
    by (auto simp: isDestroyed_def cur max_def)
  have hit: "\<not> explosiveRoundsActive (player g) \<Longrightarrow> enemies g ! j = enemyLife evs ?e \<Longrightarrow>
      enemies (bulletHit i j g) =
        (if max 0 (maxHealth ?e - int (Suc (hitCount evs))) = 0 then splice1 j (enemies g)
         else (enemies g)[j := enemyLife (evs @ [Hit]) ?e]) \<and>
      score (bulletHit i j g) =
        (if max 0 (maxHealth ?e - int (Suc (hitCount evs))) = 0 then score g + 10 else score g)"
    using dead [of "evs @ [Hit]"]
    by (simp add: bulletHit_single enemyLife_snoc hitCount_snoc_Hit)
  have life: "2 \<le> maxHealth ?e \<and> maxHealth ?e \<le> 4 \<and>
      currentHealth (enemyLife evs ?e) = max 0 (maxHealth ?e - int (hitCount evs)) \<and>
      isDestroyed (enemyLife evs ?e) = (max 0 (maxHealth ?e - int (hitCount evs)) = 0) \<and>
      (\<not> explosiveRoundsActive (player g) \<and> j < length (enemies g) \<and>
       enemies g ! j = enemyLife evs ?e \<longrightarrow>
         enemies (bulletHit i j g) =
           (if max 0 (maxHealth ?e - int (Suc (hitCount evs))) = 0 then splice1 j (enemies g)
            else (enemies g)[j := enemyLife (evs @ [Hit]) ?e]) \<and>
         score (bulletHit i j g) =
           (if max 0 (maxHealth ?e - int (Suc (hitCount evs))) = 0 then score g + 10 else score g))"
    using mh cur dead hit by simp
  show ?thesis
    using life playerEnemyPass_char [OF assms(4)] updateEnemies_char(1,2) [of g]
    by (simp only: Let_def) simp
qed

lemma oneEnemyGame_registered: "statesAsRegistered (oneEnemyGame e)"
  using fresh_game_registered [of standardCanvas]
  by (simp add: oneEnemyGame_def statesAsRegistered_def)

lemma sample_random_double: "isDouble (6004799503160661 / 9007199254740992)"
  using fl_div_pow2 [of 6004799503160661 53] by (simp add: isDouble_def)

lemma sample_enemy_maxHealth:
  "maxHealth (Enemy_new (Some standardCanvas) (1/2) 0 (6004799503160661 / 9007199254740992)) = 4"
  using fl_two_thirds_times_three by (simp add: Enemy_new_def Let_def)

theorem enemy_health_after_hits_and_removal_witness:
  "isDouble (6004799503160661 / 9007199254740992) \<and>
   (0::real) \<le> 6004799503160661 / 9007199254740992 \<and>
   (6004799503160661 / 9007199254740992 :: real) < 1 \<and>
   statesAsRegistered
     (oneEnemyGame (enemyLife [Hit, Move 1, Hit, BarCheck, Hit]
        (Enemy_new (Some standardCanvas) (1/2) 0 (6004799503160661 / 9007199254740992)))) \<and>
   \<not> explosiveRoundsActive (player
     (oneEnemyGame (enemyLife [Hit, Move 1, Hit, BarCheck, Hit]
        (Enemy_new (Some standardCanvas) (1/2) 0 (6004799503160661 / 9007199254740992))))) \<and>
   enemies
     (oneEnemyGame (enemyLife [Hit, Move 1, Hit, BarCheck, Hit]
        (Enemy_new (Some standardCanvas) (1/2) 0 (6004799503160661 / 9007199254740992)))) =
     [enemyLife [Hit, Move 1, Hit, BarCheck, Hit]
        (Enemy_new (Some standardCanvas) (1/2) 0 (6004799503160661 / 9007199254740992))] \<and>
   maxHealth (Enemy_new (Some standardCanvas) (1/2) 0 (6004799503160661 / 9007199254740992)) = 4 \<and>
   currentHealth (enemyLife [Hit, Move 1, Hit, BarCheck, Hit]
     (Enemy_new (Some standardCanvas) (1/2) 0 (6004799503160661 / 9007199254740992))) = 1 \<and>
   \<not> isDestroyed (enemyLife [Hit, Move 1, Hit, BarCheck, Hit]
     (Enemy_new (Some standardCanvas) (1/2) 0 (6004799503160661 / 9007199254740992))) \<and>
   enemies (bulletHit 0 0
     (oneEnemyGame (enemyLife [Hit, Move 1, Hit, BarCheck, Hit]
        (Enemy_new (Some standardCanvas) (1/2) 0 (6004799503160661 / 9007199254740992))))) = [] \<and>
   score (bulletHit 0 0
     (oneEnemyGame (enemyLife [Hit, Move 1, Hit, BarCheck, Hit]
        (Enemy_new (Some standardCanvas) (1/2) 0 (6004799503160661 / 9007199254740992))))) = 10"
proof -
  let ?r = "6004799503160661 / 9007199254740992 :: real"
  let ?evs = "[Hit, Move 1, Hit, BarCheck, Hit]"
  let ?g = "oneEnemyGame (enemyLife ?evs (Enemy_new (Some standardCanvas) (1/2) 0 ?r))"
  have r: "(0::real) \<le> ?r" "?r < 1" by simp_all
  have n: "hitCount ?evs = 3" by (simp add: hitCount_def)
  show ?thesis
    using enemy_health_after_hits_and_removal [OF sample_random_double r oneEnemyGame_registered,
        where cv = "Some standardCanvas" and ?r1.0 = "1/2" and ?r2.0 = 0 and evs = ?evs
          and i = 0 and j = 0]
      sample_random_double oneEnemyGame_registered
    by (simp add: Let_def n sample_enemy_maxHealth oneEnemyGame_fields splice1_def)
qed

lemma fresh_game_canvas: "canvas (GameState_enter (initializeGame c)) = Some c"
  by (simp add: GameState_enter_frame_env initializeGame_fields)

lemma GameState_enter_multiplier: "timeSlowMultiplier (GameState_enter g) = 1"
  by (simp add: GameState_enter_def Let_def updateLives_def updateScore_def player_reset_def
      clearAllPowerUps_rest)

lemmas fresh_game_env = fresh_game_canvas GameState_enter_multiplier

lemma spawned_enemy:
  "Enemy_new (Some standardCanvas) (1/2) 0 (1/2) = enemyAt 385 (- 30) 3"
  by (simp add: Enemy_new_def Let_def enemyAt_def standardCanvas_def CANVAS_WIDTH_def
      fl_numeral fl_one fl_three_halves)

lemma fl_int_succ:
  assumes "- 30 \<le> k" and "k < 600"
  shows "fl (real_of_int k + 1) = real_of_int (k + 1)"
proof -
  have "\<bar>k + 1\<bar> < 2 ^ 53" using assms by simp
  then have "fl (real_of_int (k + 1)) = real_of_int (k + 1)" by (rule fl_of_int)
  then show ?thesis by simp
qed

lemma approach_step:
  assumes "enemies g = [enemyAt 385 (real_of_int k) 3]" and "timeSlowMultiplier g = 1"
      and "canvas g = Some standardCanvas" and "- 30 \<le> k" and "k < 600"
  shows "updateEnemies g = g\<lparr> enemies := [enemyAt 385 (real_of_int (k + 1)) 3] \<rparr>"
proof -
  have mv: "updateHealthBarVisibility (Enemy_update 1 (enemyAt 385 (real_of_int k) 3)) =
            enemyAt 385 (real_of_int (k + 1)) 3"
    using fl_int_succ [OF assms(4,5)]
    by (simp add: Enemy_update_def updateHealthBarVisibility_def enemyAt_def Let_def fl_one)
  have "enemies (updateEnemies g) = [enemyAt 385 (real_of_int (k + 1)) 3]"
    using assms(5)
    by (simp add: updateEnemies_char(1) assms(1,2,3) mv standardCanvas_def CANVAS_HEIGHT_def)
       (simp add: enemyAt_def)
  then show ?thesis using updateEnemies_char(3) [of g] by simp
qed

lemma approach_run:
  assumes "enemies g = [enemyAt 385 (real_of_int k) 3]" and "timeSlowMultiplier g = 1"
      and "canvas g = Some standardCanvas" and "- 30 \<le> k" and "k + int n \<le> 600"
  shows "(updateEnemies ^^ n) g = g\<lparr> enemies := [enemyAt 385 (real_of_int (k + int n)) 3] \<rparr>"
  using assms(5)
proof (induction n)
  case 0
  show ?case using assms(1) by simp
next
  case (Suc n)
  let ?g1 = "g\<lparr> enemies := [enemyAt 385 (real_of_int (k + int n)) 3] \<rparr>"
  have run: "(updateEnemies ^^ n) g = ?g1" using Suc by simp
  have "updateEnemies ?g1 = ?g1\<lparr> enemies := [enemyAt 385 (real_of_int (k + int n + 1)) 3] \<rparr>"
    using assms(2,3,4) Suc.prems by (intro approach_step) simp_all
  then show ?case by (simp add: run add_ac)
qed

lemma approachGame_eq:
  "approachGame =
     (GameState_enter (initializeGame standardCanvas))
       \<lparr> enemies := [enemyAt 385 530 3], lastEnemySpawn := 3000, enemySpawnRate := 1990 \<rparr>"
proof -
  let ?g0 = "GameState_enter (initializeGame standardCanvas)"
  let ?g1 = "?g0\<lparr> enemies := [enemyAt 385 (real_of_int (- 30)) 3], lastEnemySpawn := 3000,
                  enemySpawnRate := 1990 \<rparr>"
  have sp: "spawnEnemy 3000 (1/2, 0, 1/2) ?g0 = ?g1"
    by (simp add: spawnEnemy_def Let_def GameState_enter_session fresh_game_env spawned_enemy
        INITIAL_ENEMY_SPAWN_RATE_def MIN_ENEMY_SPAWN_RATE_def SPAWN_RATE_DECREASE_def)
  have "(updateEnemies ^^ 560) ?g1 = ?g1\<lparr> enemies := [enemyAt 385 (real_of_int (- 30 + int 560)) 3] \<rparr>"
    by (rule approach_run) (simp_all add: fresh_game_env)
  then show ?thesis by (simp add: approachGame_def sp)
qed

lemma approachGame_fields:
  "enemies approachGame = [enemyAt 385 530 3]"
  "bullets approachGame = []"
  "player approachGame = initial_player"
  "statesAsRegistered approachGame"
  "score approachGame = 0"
  using fresh_game_registered [of standardCanvas]
  by (simp_all add: approachGame_eq fresh_game_player statesAsRegistered_def GameState_enter_session)

text \<open>
  The claim as stated fails: the enemy of \<open>approachGame\<close> was spawned with \<open>maxHealth\<close> 3
  and never hit, so its health is \<open>max(0, 3 - 0) = 3\<close>; it has come down onto the
  player, and the collision pass removes it and leaves the score at 0.
\<close>

theorem enemy_removed_with_health_left_counterexample:
  "map maxHealth (enemies approachGame) = [3] \<and>
   map currentHealth (enemies approachGame) = [3] \<and>
   score approachGame = 0 \<and>
   enemies (checkCollisions approachGame) = [] \<and>
   score (checkCollisions approachGame) = 0"
proof -
  have pass: "bulletEnemyPass approachGame = approachGame"
    by (simp add: bulletEnemyPass_def approachGame_fields)
  have gone: "enemies (playerEnemyPass approachGame) = []"
    by (simp add: playerEnemyPass_char(1) [OF approachGame_fields(4)] approachGame_fields
        initial_player_box)
       (simp add: overlaps_def enemyAt_def fl_numeral)
  have sc: "score (playerEnemyPass approachGame) = 0"
    by (simp add: playerEnemyPass_char(2) [OF approachGame_fields(4)] approachGame_fields)
  show ?thesis
    using gone sc by (simp add: checkCollisions_def pass approachGame_fields) (simp add: enemyAt_def)
qed

end
